theory Spec2Isabelle
  imports Main "HOL-Library.Word" "HOL-Library.Sublist"
begin

section \<open>Conversation Engine (app/services/llm\_agent.py)\<close>

text \<open>
  Messages are the dicts that \<open>LLMAgent.chat\<close> puts into \<open>messages\<close> and into the
  conversation history: a plain \<open>{"role": r, "content": c}\<close> dict, the dump of an assistant
  message that carries tool calls, and a \<open>{"role": "tool", ...}\<close> result record.
\<close>

datatype tool_call = ToolCall (tc_id: string) (fn_name: string) (fn_arguments: string)

datatype message =
    Msg (msg_role: string) (msg_content: string)
  | AssistantToolCalls "string option" "tool_call list"
  | ToolResult string string

text \<open>
  What \<open>client.chat.completions.create\<close> does: it raises (\<open>ApiError\<close>), or it returns a
  response whose first choice has an optional \<open>content\<close> and a list of tool calls
  (\<open>None\<close> and \<open>[]\<close> are both falsy in the source, both are \<open>[]\<close> here). A response
  with an empty \<open>choices\<close> list, on which \<open>response.choices[0]\<close> raises outside the
  \<open>try\<close>, is not a value of this type.
\<close>

datatype completion =
    ApiError string
  | Choice "string option" "tool_call list"

text \<open>
  The reasoning backend and the tool dispatcher are external and stateful. Both thread a
  world state \<open>'w\<close>. The dispatcher stands for \<open>json.loads\<close> of the raw arguments
  followed by \<open>_execute_tool\<close>, which catches every exception and returns a string.
\<close>

type_synonym 'w backend = "'w \<Rightarrow> message list \<Rightarrow> completion \<times> 'w"
type_synonym 'w dispatcher = "'w \<Rightarrow> string \<Rightarrow> string \<Rightarrow> string \<times> 'w"

record 'w chat_result =
  response :: string
  history :: "message list"
  tools_called :: "string list"
  trace :: "completion list"
  world :: 'w

definition MAX_HISTORY :: nat where
  "MAX_HISTORY = 40"

definition max_tool_rounds :: nat where
  "max_tool_rounds = 5"

definition api_error_phrase :: string where
  "api_error_phrase =
     ''I'' @ [CHR 0x27] @ ''m sorry, I'' @ [CHR 0x27] @ ''m having a bit of trouble right now. '' @
     ''Could you repeat that?''"

definition stall_phrase :: string where
  "stall_phrase =
     ''I apologize for the delay. Let me help you with that. '' @
     ''Could you tell me what you'' @ [CHR 0x27] @ ''d like to do?''"

text \<open>
  \<open>conversation_history[:4] + conversation_history[-36:]\<close>, taken only when the history
  has more than \<open>MAX_HISTORY\<close> entries. A Python slice \<open>h[-36:]\<close> is the whole list when
  \<open>h\<close> is shorter than 36, which is what truncating subtraction gives.
\<close>

definition trim_history :: "'a list \<Rightarrow> 'a list" where
  "trim_history h =
     (if length h > MAX_HISTORY then take 4 h @ drop (length h - 36) h else h)"

text \<open>The inner \<open>for tool_call in choice.message.tool_calls\<close> loop.\<close>

fun run_tool_calls ::
  "'w dispatcher \<Rightarrow> tool_call list \<Rightarrow> message list \<Rightarrow> string list \<Rightarrow> 'w
     \<Rightarrow> message list \<times> string list \<times> 'w" where
  "run_tool_calls ex [] messages called w = (messages, called, w)"
| "run_tool_calls ex (tc # tcs) messages called w =
     (case ex w (fn_name tc) (fn_arguments tc) of
        (tool_result, w') \<Rightarrow>
          run_tool_calls ex tcs
            (messages @ [ToolResult (tc_id tc) tool_result]) (called @ [fn_name tc]) w')"

text \<open>
  The \<open>for round_num in range(max_tool_rounds)\<close> loop, by recursion on the rounds that
  remain. \<open>tr\<close> is the log of the backend's answers so far in this turn; it is not in the
  source and is kept to count and inspect the backend invocations.
\<close>

fun chat_rounds ::
  "'w backend \<Rightarrow> 'w dispatcher \<Rightarrow> message list \<Rightarrow> string \<Rightarrow> nat \<Rightarrow> message list
     \<Rightarrow> string list \<Rightarrow> completion list \<Rightarrow> 'w \<Rightarrow> 'w chat_result" where
  "chat_rounds be ex conversation_history user_message 0 messages called tr w =
     \<lparr>response = stall_phrase, history = conversation_history, tools_called = called,
      trace = tr, world = w\<rparr>"
| "chat_rounds be ex conversation_history user_message (Suc k) messages called tr w =
     (case be w messages of
        (ApiError e, w1) \<Rightarrow>
          \<lparr>response = api_error_phrase, history = conversation_history,
           tools_called = called, trace = tr @ [ApiError e], world = w1\<rparr>
      | (Choice content tcs, w1) \<Rightarrow>
          if tcs \<noteq> [] then
            (case run_tool_calls ex tcs (messages @ [AssistantToolCalls content tcs]) called w1 of
               (messages', called', w2) \<Rightarrow>
                 chat_rounds be ex conversation_history user_message k messages' called'
                   (tr @ [Choice content tcs]) w2)
          else
            (let agent_response = (case content of None \<Rightarrow> [] | Some c \<Rightarrow> c) in
               \<lparr>response = agent_response,
                history = conversation_history @
                   [Msg ''user'' user_message, Msg ''assistant'' agent_response],
                tools_called = called, trace = tr @ [Choice content tcs], world = w1\<rparr>))"

text \<open>
  \<open>LLMAgent.chat\<close>. The system message depends on the clock and on the prompt file and
  is a parameter. The name \<open>conversation_history\<close> is rebound to the trimmed list before
  the loop, so every \<open>return\<close> of the source hands back the trimmed list.
\<close>

definition chat ::
  "'w backend \<Rightarrow> 'w dispatcher \<Rightarrow> message \<Rightarrow> message list \<Rightarrow> string \<Rightarrow> 'w
     \<Rightarrow> 'w chat_result" where
  "chat be ex system_message conversation_history user_message w =
     (let h = trim_history conversation_history;
          messages = [system_message] @ h @ [Msg ''user'' user_message]
      in chat_rounds be ex h user_message max_tool_rounds messages [] [] w)"

section \<open>Utterance segmenter (app/routes/voice.py, websocket\_media\_stream)\<close>

type_synonym byte = "8 word"

definition CHUNK_THRESHOLD :: nat where
  "CHUNK_THRESHOLD = 3200"

definition SILENCE_THRESHOLD :: nat where
  "SILENCE_THRESHOLD = 30"

definition SPEECH_RMS_THRESHOLD :: nat where
  "SPEECH_RMS_THRESHOLD = 200"

text \<open>The local variables of the connection handler that the media branch reads and writes.\<close>

record connection =
  conn_call_sid :: "string option"
  stream_sid :: "string option"
  audio_buffer :: "byte list"
  silence_count :: nat
  is_speaking :: bool
  is_processing :: bool

text \<open>
  What the handler calls and does not define itself. \<open>b64decode\<close> is \<open>None\<close> where
  \<open>base64.b64decode\<close> raises. \<open>rms_energy\<close> is \<open>audioop.rms(audioop.ulaw2lin(chunk, 2), 2)\<close>
  with its \<open>except Exception: rms_energy = 0\<close>. \<open>process_audio\<close> is the call of
  \<open>call_orchestrator.process_customer_audio\<close> on a state \<open>'o\<close>, with \<open>Inl\<close> for an
  exception. \<open>send_audio\<close> tells whether \<open>_send_audio\<close> completes without raising.
\<close>

record 'o transport =
  b64decode :: "string \<Rightarrow> byte list option"
  rms_energy :: "byte list \<Rightarrow> nat"
  process_audio :: "string option \<Rightarrow> byte list \<Rightarrow> 'o \<Rightarrow> (string + string \<times> string) \<times> 'o"
  send_audio :: "string \<Rightarrow> string \<Rightarrow> bool"

text \<open>
  The media branch up to and including \<open>is_processing = True\<close>: the result is \<open>None\<close> when
  decoding the payload raises (the handler's outer \<open>except\<close> then ends the loop), and
  otherwise the new variables together with the utterance handed on, if any.
\<close>

definition accumulate ::
  "'o transport \<Rightarrow> string \<Rightarrow> connection \<Rightarrow> (connection \<times> byte list option) option" where
  "accumulate tp payload c =
     (if is_processing c then Some (c, None)
      else if payload = [] then Some (c, None)
      else
        (case b64decode tp payload of
           None \<Rightarrow> None
         | Some chunk \<Rightarrow>
             (let c1 = c\<lparr>audio_buffer := audio_buffer c @ chunk\<rparr>;
                  c2 = (if rms_energy tp chunk > SPEECH_RMS_THRESHOLD
                        then c1\<lparr>is_speaking := True, silence_count := 0\<rparr>
                        else if is_speaking c1
                        then c1\<lparr>silence_count := silence_count c1 + 1\<rparr>
                        else c1)
              in if is_speaking c2 \<and> silence_count c2 \<ge> SILENCE_THRESHOLD
                      \<and> length (audio_buffer c2) > CHUNK_THRESHOLD
                 then Some (c2\<lparr>audio_buffer := [], is_speaking := False, silence_count := 0,
                               is_processing := True\<rparr>, Some (audio_buffer c2))
                 else Some (c2, None))))"

text \<open>
  The \<open>try\<close> block that runs the pipeline on an emitted utterance: \<open>is_processing\<close> stays
  set only when there is audio to play, a stream id, and the audio was sent.
\<close>

definition dispatch_utterance ::
  "'o transport \<Rightarrow> byte list \<Rightarrow> connection \<Rightarrow> 'o \<Rightarrow> connection \<times> 'o" where
  "dispatch_utterance tp audio_data c ost =
     (case process_audio tp (conn_call_sid c) audio_data ost of
        (Inl e, ost') \<Rightarrow> (c\<lparr>is_processing := False\<rparr>, ost')
      | (Inr (agent_text, response_audio_b64), ost') \<Rightarrow>
          (case stream_sid c of
             None \<Rightarrow> (c\<lparr>is_processing := False\<rparr>, ost')
           | Some sid \<Rightarrow>
               if response_audio_b64 \<noteq> [] \<and> sid \<noteq> [] then
                 (if send_audio tp sid response_audio_b64 then (c, ost')
                  else (c\<lparr>is_processing := False\<rparr>, ost'))
               else (c\<lparr>is_processing := False\<rparr>, ost')))"

definition on_media ::
  "'o transport \<Rightarrow> string \<Rightarrow> connection \<Rightarrow> 'o
     \<Rightarrow> (connection \<times> 'o \<times> byte list option) option" where
  "on_media tp payload c ost =
     (case accumulate tp payload c of
        None \<Rightarrow> None
      | Some (c', None) \<Rightarrow> Some (c', ost, None)
      | Some (c', Some audio_data) \<Rightarrow>
          (case dispatch_utterance tp audio_data c' ost of
             (c'', ost') \<Rightarrow> Some (c'', ost', Some audio_data)))"

text \<open>The mark branch: \<open>response_end\<close> clears the suppression and the segmenter state.\<close>

definition on_mark :: "string option \<Rightarrow> connection \<Rightarrow> connection" where
  "on_mark mark_name c =
     (if mark_name = Some ''response_end''
      then c\<lparr>is_processing := False, audio_buffer := [], is_speaking := False,
             silence_count := 0\<rparr>
      else c)"

text \<open>
  A run of media events, one payload each, with the utterances handed to the pipeline
  collected in order; \<open>None\<close> when one of the events ends the loop.
\<close>

fun feed ::
  "'o transport \<Rightarrow> string list \<Rightarrow> connection \<Rightarrow> 'o
     \<Rightarrow> (connection \<times> 'o \<times> byte list list) option" where
  "feed tp [] c ost = Some (c, ost, [])"
| "feed tp (payload # rest) c ost =
     (case on_media tp payload c ost of
        None \<Rightarrow> None
      | Some (c', ost', emitted) \<Rightarrow>
          (case feed tp rest c' ost' of
             None \<Rightarrow> None
           | Some (c'', ost'', later) \<Rightarrow>
               Some (c'', ost'', (case emitted of None \<Rightarrow> [] | Some u \<Rightarrow> [u]) @ later)))"

section \<open>Calendar slot search (app/services/calendar\_service.py)\<close>

text \<open>
  Instants are wall-clock seconds counted from midnight of the requested date in the salon's
  zone: \<open>day_start\<close>, \<open>day_end\<close> and every busy period carry the same \<open>tzinfo\<close>, for which
  Python compares and adds on the wall clock. The date itself is a well-formed
  \<open>YYYY-MM-DD\<close> string that is only copied into the result; on any other string
  \<open>datetime.fromisoformat\<close> raises before the search starts, which is not modelled.
\<close>

type_synonym instant = int

definition day_start :: instant where
  "day_start = 9 * 3600"

definition day_end :: instant where
  "day_end = 19 * 3600"

definition stride :: int where
  "stride = 30 * 60"

definition two_digits :: "nat \<Rightarrow> string" where
  "two_digits n = [''0123456789'' ! ((n div 10) mod 10), ''0123456789'' ! (n mod 10)]"

text \<open>\<open>strftime("%H:%M")\<close>.\<close>

definition hhmm :: "instant \<Rightarrow> string" where
  "hhmm t = two_digits (nat ((t div 3600) mod 24)) @ '':'' @ two_digits (nat ((t div 60) mod 60))"

record slot =
  start_time :: string
  end_time :: string
  date :: string

text \<open>
  A fetched event with its \<open>summary\<close> and \<open>description\<close> (\<open>""\<close> when the key is absent) and
  its start and end already parsed and moved to the salon's zone.
\<close>

record event =
  summary :: string
  description :: string
  ev_start :: instant
  ev_end :: instant

text \<open>
  \<open>str.lower\<close> on the letters \<open>A\<close> to \<open>Z\<close>; letters beyond ASCII, which \<open>str.lower\<close> folds
  as well, are left as they are.
\<close>

definition lower_char :: "char \<Rightarrow> char" where
  "lower_char c =
     (let n = (of_char c :: nat) in if 65 \<le> n \<and> n \<le> 90 then char_of (n + 32) else c)"

definition lower :: "string \<Rightarrow> string" where
  "lower s = map lower_char s"

definition mentions :: "string \<Rightarrow> event \<Rightarrow> bool" where
  "mentions stylist e =
     (sublist (lower stylist) (lower (description e)) \<or> sublist (lower stylist) (lower (summary e)))"

text \<open>
  The inner \<open>for busy_start, busy_end in busy_periods\<close> loop: the first busy period, in
  list order, that the candidate slot overlaps.
\<close>

fun first_conflict :: "instant \<Rightarrow> instant \<Rightarrow> (instant \<times> instant) list \<Rightarrow> (instant \<times> instant) option" where
  "first_conflict current slot_end [] = None"
| "first_conflict current slot_end ((busy_start, busy_end) # rest) =
     (if current < busy_end \<and> slot_end > busy_start then Some (busy_start, busy_end)
      else first_conflict current slot_end rest)"

text \<open>The \<open>while current + duration <= day_end\<close> loop.\<close>

function sweep ::
  "string \<Rightarrow> (instant \<times> instant) list \<Rightarrow> int \<Rightarrow> instant \<Rightarrow> instant \<Rightarrow> slot list" where
  "sweep d busy_periods duration dend current =
     (if current + duration \<le> dend then
        (case first_conflict current (current + duration) busy_periods of
           Some (busy_start, busy_end) \<Rightarrow> sweep d busy_periods duration dend busy_end
         | None \<Rightarrow>
             \<lparr>start_time = hhmm current, end_time = hhmm (current + duration), date = d\<rparr>
               # sweep d busy_periods duration dend (current + stride))
      else [])"
  by pat_completeness auto
termination
proof (relation "measure (\<lambda>(d, busy_periods, duration, dend, current).
                    nat (dend - duration - current + 1))", goal_cases)
  case 1
  show ?case by simp
next
  case (2 d busy_periods duration dend current)
  then show ?case by (simp add: stride_def)
next
  case (3 d busy_periods duration dend current x2 busy_start busy_end)
  have later: "first_conflict c e bs = Some (a, b) \<Longrightarrow> c < b" for c e bs a b
    by (induction bs) (auto split: if_splits)
  from 3 have "first_conflict current (current + duration) busy_periods = Some (busy_start, busy_end)"
    by simp
  then have "current < busy_end" by (rule later)
  with 3 show ?case by simp
qed

declare sweep.simps [simp del]

text \<open>
  \<open>CalendarService.get_available_slots\<close>. \<open>fetched\<close> is the result of the events query,
  \<open>None\<close> when it raises (the source then returns \<open>[]\<close>).
\<close>

definition get_available_slots ::
  "event list option \<Rightarrow> string \<Rightarrow> int \<Rightarrow> string option \<Rightarrow> slot list" where
  "get_available_slots fetched d duration_minutes stylist =
     (case fetched of
        None \<Rightarrow> []
      | Some events \<Rightarrow>
          (let events' = (case stylist of
                            None \<Rightarrow> events
                          | Some s \<Rightarrow> if s = [] then events else filter (mentions s) events);
               busy_periods = map (\<lambda>e. (ev_start e, ev_end e)) events'
           in sweep d busy_periods (duration_minutes * 60) day_end day_start))"

section \<open>Turn pipeline and session store (app/services/call\_orchestrator.py)\<close>

record call_session =
  call_sid :: string
  customer_phone :: "string option"
  customer_name :: "string option"
  conversation_history :: "message list"
  extracted_info :: "(string \<times> string) list"
  intent :: "string option"
  started_at :: nat
  is_active :: bool

text \<open>
  The collaborators of the orchestrator, on a world state \<open>'w\<close>, with \<open>Inl\<close> for an
  exception: \<open>voice_service.speech_to_text\<close>, \<open>voice_service.text_to_speech_base64\<close>,
  \<open>llm_agent.chat\<close> (history, user message, call sid), \<open>llm_agent.get_greeting\<close> and
  the clock read by \<open>datetime.now\<close>.
\<close>

record 'w services =
  speech_to_text :: "'w \<Rightarrow> byte list \<Rightarrow> (string + string) \<times> 'w"
  text_to_speech_base64 :: "'w \<Rightarrow> string \<Rightarrow> (string + string) \<times> 'w"
  llm_chat ::
    "'w \<Rightarrow> message list \<Rightarrow> string \<Rightarrow> string
       \<Rightarrow> (string + string \<times> message list \<times> string list) \<times> 'w"
  get_greeting :: string
  now :: "'w \<Rightarrow> nat"

datatype service_call =
    SpeechToText "byte list"
  | TextToSpeech string
  | LLMChat "message list" string string

text \<open>
  The orchestrator object: its \<open>_active_sessions\<close> dict, the world its collaborators
  act on, and a log of the collaborator calls made so far (not in the source; it records
  which backends a turn invoked).
\<close>

record 'w orchestrator =
  active_sessions :: "string \<rightharpoonup> call_session"
  outside :: 'w
  calls :: "service_call list"

definition invoke_stt ::
  "'w services \<Rightarrow> byte list \<Rightarrow> 'w orchestrator \<Rightarrow> (string + string) \<times> 'w orchestrator" where
  "invoke_stt svc audio_bytes st =
     (case speech_to_text svc (outside st) audio_bytes of
        (r, w) \<Rightarrow> (r, st\<lparr>outside := w, calls := calls st @ [SpeechToText audio_bytes]\<rparr>))"

definition invoke_tts ::
  "'w services \<Rightarrow> string \<Rightarrow> 'w orchestrator \<Rightarrow> (string + string) \<times> 'w orchestrator" where
  "invoke_tts svc text st =
     (case text_to_speech_base64 svc (outside st) text of
        (r, w) \<Rightarrow> (r, st\<lparr>outside := w, calls := calls st @ [TextToSpeech text]\<rparr>))"

definition invoke_chat ::
  "'w services \<Rightarrow> message list \<Rightarrow> string \<Rightarrow> string \<Rightarrow> 'w orchestrator
     \<Rightarrow> (string + string \<times> message list \<times> string list) \<times> 'w orchestrator" where
  "invoke_chat svc hist user_message sid st =
     (case llm_chat svc (outside st) hist user_message sid of
        (r, w) \<Rightarrow> (r, st\<lparr>outside := w, calls := calls st @ [LLMChat hist user_message sid]\<rparr>))"

definition stt_error_response :: string where
  "stt_error_response =
     ''I'' @ [CHR 0x27] @ ''m sorry, I didn'' @ [CHR 0x27] @ ''t catch that. Could you say that again?''"

definition llm_error_response :: string where
  "llm_error_response =
     ''I apologize, I'' @ [CHR 0x27] @ ''m experiencing a brief issue. '' @
     ''Could you repeat what you said?''"

text \<open>
  \<open>str.isspace\<close> on the characters below 128 only (\<open>str.strip\<close> also removes white space
  beyond ASCII), and \<open>not s or s.strip() == ""\<close>.
\<close>

definition py_isspace :: "char \<Rightarrow> bool" where
  "py_isspace c = (let n = (of_char c :: nat) in (9 \<le> n \<and> n \<le> 13) \<or> (28 \<le> n \<and> n \<le> 32))"

definition blank :: "string \<Rightarrow> bool" where
  "blank s = list_all py_isspace s"

definition new_session :: "string \<Rightarrow> string option \<Rightarrow> nat \<Rightarrow> call_session" where
  "new_session sid phone t =
     \<lparr>call_sid = sid, customer_phone = phone, customer_name = None, conversation_history = [],
      extracted_info = [], intent = None, started_at = t, is_active = True\<rparr>"

definition set_history ::
  "string \<Rightarrow> call_session \<Rightarrow> message list \<Rightarrow> 'w orchestrator \<Rightarrow> 'w orchestrator" where
  "set_history sid session updated_history st =
     st\<lparr>active_sessions :=
          (active_sessions st)(sid \<mapsto> session\<lparr>conversation_history := updated_history\<rparr>)\<rparr>"

text \<open>\<open>CallOrchestrator.start_call\<close>: the result is the greeting audio.\<close>

definition start_call ::
  "'w services \<Rightarrow> string \<Rightarrow> string option \<Rightarrow> 'w orchestrator \<Rightarrow> string \<times> 'w orchestrator" where
  "start_call svc sid phone st =
     (let session = new_session sid phone (now svc (outside st));
          st1 = st\<lparr>active_sessions := (active_sessions st)(sid \<mapsto> session)\<rparr>;
          greeting_text = get_greeting svc
      in case invoke_tts svc greeting_text st1 of
           (r, st2) \<Rightarrow>
             (let greeting_audio_b64 = (case r of Inl e \<Rightarrow> [] | Inr a \<Rightarrow> a)
              in (greeting_audio_b64,
                  set_history sid session
                    (conversation_history session @ [Msg ''assistant'' greeting_text]) st2)))"

text \<open>
  \<open>CallOrchestrator.process_customer_audio\<close>: \<open>Inr (agent_response, audio)\<close> when it
  returns, \<open>Inl e\<close> when an exception leaves it. The two fallback phrases are synthesized
  inside the \<open>except\<close> blocks, outside any \<open>try\<close>.
\<close>

definition process_customer_audio ::
  "'w services \<Rightarrow> string \<Rightarrow> byte list \<Rightarrow> 'w orchestrator
     \<Rightarrow> (string + string \<times> string) \<times> 'w orchestrator" where
  "process_customer_audio svc sid audio_bytes st =
     (case active_sessions st sid of
        None \<Rightarrow> (Inr ([], []), st)
      | Some session \<Rightarrow>
          (case invoke_stt svc audio_bytes st of
             (Inl e, st1) \<Rightarrow>
               (case invoke_tts svc stt_error_response st1 of
                  (Inl e', st2) \<Rightarrow> (Inl e', st2)
                | (Inr error_audio, st2) \<Rightarrow> (Inr (stt_error_response, error_audio), st2))
           | (Inr customer_text, st1) \<Rightarrow>
               if blank customer_text then (Inr ([], []), st1)
               else
                 (case invoke_chat svc (conversation_history session) customer_text sid st1 of
                    (Inl e, st2) \<Rightarrow>
                      (case invoke_tts svc llm_error_response st2 of
                         (Inl e', st3) \<Rightarrow> (Inl e', st3)
                       | (Inr error_audio, st3) \<Rightarrow> (Inr (llm_error_response, error_audio), st3))
                  | (Inr (agent_response, updated_history, tools), st2) \<Rightarrow>
                      (case invoke_tts svc agent_response
                              (set_history sid session updated_history st2) of
                         (Inl e', st3) \<Rightarrow> (Inr (agent_response, []), st3)
                       | (Inr response_audio_b64, st3) \<Rightarrow>
                           (Inr (agent_response, response_audio_b64), st3)))))"


text \<open>\<open>CallOrchestrator.end_call\<close> and \<open>get_session\<close>.\<close>

definition end_call :: "string \<Rightarrow> 'w orchestrator \<Rightarrow> 'w orchestrator" where
  "end_call sid st = st\<lparr>active_sessions := (active_sessions st)(sid := None)\<rparr>"


text \<open>
  The pipeline as the connection handler calls it: \<open>call_sid\<close> is still \<open>None\<close> when a
  media event comes before the start event, and \<open>dict.get(None)\<close> finds no session.
\<close>

definition voice_pipeline ::
  "'w services \<Rightarrow> string option \<Rightarrow> byte list \<Rightarrow> 'w orchestrator
     \<Rightarrow> (string + string \<times> string) \<times> 'w orchestrator" where
  "voice_pipeline svc sid_opt audio_bytes st =
     (case sid_opt of
        None \<Rightarrow> (Inr ([], []), st)
      | Some sid \<Rightarrow> process_customer_audio svc sid audio_bytes st)"

text \<open>The engine of the first section as the orchestrator's \<open>llm_agent.chat\<close>.\<close>

definition chat_service ::
  "'w backend \<Rightarrow> 'w dispatcher \<Rightarrow> message
     \<Rightarrow> 'w \<Rightarrow> message list \<Rightarrow> string \<Rightarrow> string
     \<Rightarrow> (string + string \<times> message list \<times> string list) \<times> 'w" where
  "chat_service be ex system_message w hist user_message sid =
     (let r = chat be ex system_message hist user_message w
      in (Inr (response r, history r, tools_called r), world r))"

section \<open>Vocabulary of the properties\<close>

text \<open>
  A backend answer is a tool round when it carries at least one tool call; \<open>invoked\<close> lists
  the tool names of an answer in order; \<open>text_of\<close> is \<open>choice.message.content or ""\<close>.
\<close>

definition is_tool_round :: "completion \<Rightarrow> bool" where
  "is_tool_round r = (case r of ApiError e \<Rightarrow> False | Choice content tcs \<Rightarrow> tcs \<noteq> [])"

definition invoked :: "completion \<Rightarrow> string list" where
  "invoked r = (case r of ApiError e \<Rightarrow> [] | Choice content tcs \<Rightarrow> map fn_name tcs)"

definition text_of :: "string option \<Rightarrow> string" where
  "text_of content = (case content of None \<Rightarrow> [] | Some c \<Rightarrow> c)"

text \<open>
  The raw bytes of a media payload and of a run of payloads. A payload is a speech frame
  when it is non-empty, decodes, and its energy is above the speech threshold, and a silence
  frame when it is non-empty, decodes, and its energy is not above the threshold. A
  connection is idle when the segmenter is in its initial state and not suppressed.
\<close>

definition frame_bytes :: "'o transport \<Rightarrow> string \<Rightarrow> byte list" where
  "frame_bytes tp payload = (case b64decode tp payload of None \<Rightarrow> [] | Some chunk \<Rightarrow> chunk)"

definition raw_bytes :: "'o transport \<Rightarrow> string list \<Rightarrow> byte list" where
  "raw_bytes tp payloads = concat (map (frame_bytes tp) payloads)"

definition decodable :: "'o transport \<Rightarrow> string \<Rightarrow> bool" where
  "decodable tp payload = (payload \<noteq> [] \<and> b64decode tp payload \<noteq> None)"

definition speech :: "'o transport \<Rightarrow> string \<Rightarrow> bool" where
  "speech tp payload = (decodable tp payload \<and>
      rms_energy tp (frame_bytes tp payload) > SPEECH_RMS_THRESHOLD)"

definition silence :: "'o transport \<Rightarrow> string \<Rightarrow> bool" where
  "silence tp payload = (decodable tp payload \<and>
      rms_energy tp (frame_bytes tp payload) \<le> SPEECH_RMS_THRESHOLD)"

definition idle :: "connection \<Rightarrow> bool" where
  "idle c = (audio_buffer c = [] \<and> \<not> is_speaking c \<and> silence_count c = 0 \<and> \<not> is_processing c)"

section \<open>Example inputs\<close>

text \<open>Backends, a dispatcher and histories on which the properties are evaluated.\<close>

definition tool_loop_backend :: "unit backend" where
  "tool_loop_backend w messages =
     (Choice None [ToolCall ''tc_1'' ''search_knowledge_base'' ''{}''], w)"

definition failing_backend :: "unit backend" where
  "failing_backend w messages = (ApiError ''API timeout'', w)"

definition scripted_backend :: "nat backend" where
  "scripted_backend n messages =
     (if n = 0
      then Choice None [ToolCall ''tc_1'' ''search_knowledge_base'' ''{}'']
      else Choice (Some ''A haircut is 85 dollars and takes about an hour.'') [],
      Suc n)"

definition echo_dispatcher :: "'w dispatcher" where
  "echo_dispatcher w name arguments = (''{}'', w)"

definition system0 :: message where
  "system0 = Msg ''system'' ''You are the receptionist of a salon.''"

definition long_history :: "message list" where
  "long_history = concat (replicate 21 [Msg ''user'' ''hi'', Msg ''assistant'' ''hello''])"

definition tool_then_fail_backend :: "nat backend" where
  "tool_then_fail_backend n messages =
     (if n = 0 then Choice None [ToolCall ''tc_1'' ''search_knowledge_base'' ''{}'']
      else ApiError ''API timeout'',
      Suc n)"

text \<open>
  A transport whose payloads decode to their own characters, whose energy is four times the
  first byte, whose pipeline always answers with audio, and whose sends succeed.
\<close>

definition byte_of_char :: "char \<Rightarrow> byte" where
  "byte_of_char ch = of_nat (of_char ch)"

definition plain_decode :: "string \<Rightarrow> byte list option" where
  "plain_decode payload = Some (map byte_of_char payload)"

definition first_byte_energy :: "byte list \<Rightarrow> nat" where
  "first_byte_energy chunk = (case chunk of [] \<Rightarrow> 0 | b # rest \<Rightarrow> 4 * unat b)"

definition canned_pipeline ::
  "string option \<Rightarrow> byte list \<Rightarrow> unit \<Rightarrow> (string + string \<times> string) \<times> unit" where
  "canned_pipeline sid audio_data u = (Inr (''Sure.'', ''QUJD''), u)"

definition send_succeeds :: "string \<Rightarrow> string \<Rightarrow> bool" where
  "send_succeeds sid audio = True"

definition transport0 :: "unit transport" where
  "transport0 = \<lparr>b64decode = plain_decode, rms_energy = first_byte_energy,
                  process_audio = canned_pipeline, send_audio = send_succeeds\<rparr>"

definition idle0 :: connection where
  "idle0 = \<lparr>conn_call_sid = Some ''CA1'', stream_sid = Some ''MZ1'', audio_buffer = [],
            silence_count = 0, is_speaking = False, is_processing = False\<rparr>"

text \<open>The same transport with a pipeline that returns no text and no audio.\<close>

definition silent_pipeline ::
  "string option \<Rightarrow> byte list \<Rightarrow> unit \<Rightarrow> (string + string \<times> string) \<times> unit" where
  "silent_pipeline sid audio_data u = (Inr ([], []), u)"

definition transport1 :: "unit transport" where
  "transport1 = transport0\<lparr>process_audio := silent_pipeline\<rparr>"

definition loud_frame :: "nat \<Rightarrow> string" where
  "loud_frame n = replicate n (CHR 0xFF)"

definition quiet_frame :: "nat \<Rightarrow> string" where
  "quiet_frame n = replicate n (CHR 0x01)"

text \<open>
  Three busy periods, 09:10 to 09:45, 10:00 to 11:00 and 10:30 to 12:00, in seconds from
  midnight.
\<close>

definition busy3 :: "(instant \<times> instant) list" where
  "busy3 = [(33000, 35100), (36000, 39600), (37800, 43200)]"

text \<open>The appointment of the calendar tests: 10:00 to 11:00 on the requested day.\<close>

definition existing_appointment :: event where
  "existing_appointment =
     \<lparr>summary = ''Existing appointment'', description = [], ev_start = 10 * 3600,
      ev_end = 11 * 3600\<rparr>"

text \<open>
  Voice services that fail or answer with fixed values, a store with one greeted session,
  an empty store, and a transport that runs the orchestrator's pipeline.
\<close>

definition failing_stt :: "'w \<Rightarrow> byte list \<Rightarrow> (string + string) \<times> 'w" where
  "failing_stt w audio_bytes = (Inl ''STT timeout'', w)"


definition failing_tts :: "'w \<Rightarrow> string \<Rightarrow> (string + string) \<times> 'w" where
  "failing_tts w text = (Inl ''TTS timeout'', w)"

definition canned_tts :: "'w \<Rightarrow> string \<Rightarrow> (string + string) \<times> 'w" where
  "canned_tts w text = (Inr ''QUJD'', w)"

definition clock0 :: "nat \<Rightarrow> nat" where
  "clock0 w = 1700000000"

definition stt_down :: "nat services" where
  "stt_down = \<lparr>speech_to_text = failing_stt, text_to_speech_base64 = canned_tts,
     llm_chat = chat_service scripted_backend echo_dispatcher system0,
     get_greeting = ''Welcome to the salon! Thank you for calling. How can I help you today?'',
     now = clock0\<rparr>"

definition voice_down :: "nat services" where
  "voice_down = stt_down\<lparr>text_to_speech_base64 := failing_tts\<rparr>"


definition greeted_session :: call_session where
  "greeted_session =
     (new_session ''CA1'' (Some ''+15551234567'') 1700000000)
       \<lparr>conversation_history := [Msg ''assistant'' ''Welcome to the salon!'']\<rparr>"

definition store0 :: "nat orchestrator" where
  "store0 = \<lparr>active_sessions = [''CA1'' \<mapsto> greeted_session], outside = 0, calls = []\<rparr>"


definition live_transport :: "nat orchestrator transport" where
  "live_transport = \<lparr>b64decode = plain_decode, rms_energy = first_byte_energy,
                      process_audio = voice_pipeline stt_down, send_audio = send_succeeds\<rparr>"

section \<open>History trimming\<close>

lemma trim_history_short: "length h \<le> 40 \<Longrightarrow> trim_history h = h"
  by (simp add: trim_history_def MAX_HISTORY_def)

lemma trim_history_long:
  "40 < length h \<Longrightarrow> trim_history h = take 4 h @ drop (length h - 36) h"
  by (simp add: trim_history_def MAX_HISTORY_def)

text \<open>
  C2. A history of at most 40 entries is left unchanged by the trimming. A history of
  100 entries is cut to exactly 40 entries: its first 4 entries followed by its last 36
  entries (the entries at positions 64 to 99), in order.
\<close>

theorem C2_trim_history:
  "(length h \<le> 40 \<longrightarrow> trim_history h = h) \<and>
   (length h = 100 \<longrightarrow>
      length (trim_history h) = 40 \<and>
      take 4 (trim_history h) = take 4 h \<and>
      drop 4 (trim_history h) = drop 64 h \<and>
      length (drop 64 h) = 36)"
  by (simp add: trim_history_short trim_history_long)

text \<open>The property on a history of 3 and on a history of 100 entries.\<close>

theorem C2_trim_history_witness:
  "trim_history [1, 2, 3 :: nat] = [1, 2, 3] \<and>
   length (trim_history [0 ..< 100]) = 40 \<and>
   take 4 (trim_history [0 ..< 100]) = [0 ..< 4] \<and>
   drop 4 (trim_history [0 ..< 100]) = [64 ..< 100]"
  using C2_trim_history [of "[1, 2, 3 :: nat]"] C2_trim_history [of "[0 ..< 100]"]
  by simp

section \<open>The round loop\<close>

lemma run_tool_calls_called:
  "run_tool_calls ex tcs messages called w = (messages', called', w') \<Longrightarrow>
   called' = called @ map fn_name tcs"
proof (induction tcs arbitrary: messages called w)
  case Nil
  then show ?case by simp
next
  case (Cons tc tcs)
  obtain res w1 where ex: "ex w (fn_name tc) (fn_arguments tc) = (res, w1)"
    by (cases "ex w (fn_name tc) (fn_arguments tc)")
  with Cons.prems have
    "run_tool_calls ex tcs (messages @ [ToolResult (tc_id tc) res]) (called @ [fn_name tc]) w1
       = (messages', called', w')"
    by simp
  from Cons.IH [OF this] show ?case by simp
qed

lemma is_tool_round_Choice: "is_tool_round (Choice content tcs) = (tcs \<noteq> [])"
  by (simp add: is_tool_round_def)

lemma is_tool_round_ApiError: "\<not> is_tool_round (ApiError e)"
  by (simp add: is_tool_round_def)

lemma invoked_Choice: "invoked (Choice content tcs) = map fn_name tcs"
  by (simp add: invoked_def)

lemma chat_rounds_cases:
  "\<exists>rounds. list_all is_tool_round rounds \<and>
     tools_called (chat_rounds be ex h um k messages called tr w)
        = called @ concat (map invoked rounds) \<and>
     ((trace (chat_rounds be ex h um k messages called tr w) = tr @ rounds \<and>
       length rounds = k \<and>
       response (chat_rounds be ex h um k messages called tr w) = stall_phrase \<and>
       history (chat_rounds be ex h um k messages called tr w) = h) \<or>
      (\<exists>e. trace (chat_rounds be ex h um k messages called tr w) = tr @ rounds @ [ApiError e] \<and>
       length rounds < k \<and>
       response (chat_rounds be ex h um k messages called tr w) = api_error_phrase \<and>
       history (chat_rounds be ex h um k messages called tr w) = h) \<or>
      (\<exists>c. trace (chat_rounds be ex h um k messages called tr w) = tr @ rounds @ [Choice c []] \<and>
       length rounds < k \<and>
       response (chat_rounds be ex h um k messages called tr w) = text_of c \<and>
       history (chat_rounds be ex h um k messages called tr w) =
         h @ [Msg ''user'' um, Msg ''assistant'' (text_of c)]))"
proof (induction k arbitrary: messages called tr w)
  case 0
  show ?case by (rule exI [of _ "[]"]) simp
next
  case (Suc k)
  obtain r w1 where be: "be w messages = (r, w1)" by (cases "be w messages")
  show ?case
  proof (cases r)
    case (ApiError e)
    with be show ?thesis by (intro exI [of _ "[]"]) simp
  next
    case (Choice content tcs)
    show ?thesis
    proof (cases "tcs = []")
      case True
      with be Choice show ?thesis
        by (intro exI [of _ "[]"]) (simp add: text_of_def Let_def)
    next
      case False
      obtain m' c' w2 where run:
        "run_tool_calls ex tcs (messages @ [AssistantToolCalls content tcs]) called w1 = (m', c', w2)"
        by (cases "run_tool_calls ex tcs (messages @ [AssistantToolCalls content tcs]) called w1")
      then have c': "c' = called @ map fn_name tcs" by (rule run_tool_calls_called)
      have step: "chat_rounds be ex h um (Suc k) messages called tr w =
                  chat_rounds be ex h um k m' c' (tr @ [Choice content tcs]) w2"
        using be Choice False run by simp
      from Suc.IH [of m' c' "tr @ [Choice content tcs]" w2]
      obtain rounds where R: "list_all is_tool_round rounds"
        "tools_called (chat_rounds be ex h um k m' c' (tr @ [Choice content tcs]) w2)
            = c' @ concat (map invoked rounds)"
        "(trace (chat_rounds be ex h um k m' c' (tr @ [Choice content tcs]) w2) = (tr @ [Choice content tcs]) @ rounds \<and>
       length rounds = k \<and>
       response (chat_rounds be ex h um k m' c' (tr @ [Choice content tcs]) w2) = stall_phrase \<and>
       history (chat_rounds be ex h um k m' c' (tr @ [Choice content tcs]) w2) = h) \<or>
      (\<exists>e. trace (chat_rounds be ex h um k m' c' (tr @ [Choice content tcs]) w2) = (tr @ [Choice content tcs]) @ rounds @ [ApiError e] \<and>
       length rounds < k \<and>
       response (chat_rounds be ex h um k m' c' (tr @ [Choice content tcs]) w2) = api_error_phrase \<and>
       history (chat_rounds be ex h um k m' c' (tr @ [Choice content tcs]) w2) = h) \<or>
      (\<exists>c. trace (chat_rounds be ex h um k m' c' (tr @ [Choice content tcs]) w2) = (tr @ [Choice content tcs]) @ rounds @ [Choice c []] \<and>
       length rounds < k \<and>
       response (chat_rounds be ex h um k m' c' (tr @ [Choice content tcs]) w2) = text_of c \<and>
       history (chat_rounds be ex h um k m' c' (tr @ [Choice content tcs]) w2) =
         h @ [Msg ''user'' um, Msg ''assistant'' (text_of c)])"
        by blast
      show ?thesis
        unfolding step
        apply (rule exI [of _ "Choice content tcs # rounds"])
        using R False c' by (auto simp: is_tool_round_Choice invoked_Choice)
    qed
  qed
qed


lemma chat_cases:
  "\<exists>rounds. list_all is_tool_round rounds \<and>
     tools_called (chat be ex sm h um w) = concat (map invoked rounds) \<and>
     ((trace (chat be ex sm h um w) = rounds \<and> length rounds = 5 \<and>
       response (chat be ex sm h um w) = stall_phrase \<and>
       history (chat be ex sm h um w) = trim_history h) \<or>
      (\<exists>e. trace (chat be ex sm h um w) = rounds @ [ApiError e] \<and> length rounds < 5 \<and>
       response (chat be ex sm h um w) = api_error_phrase \<and>
       history (chat be ex sm h um w) = trim_history h) \<or>
      (\<exists>c. trace (chat be ex sm h um w) = rounds @ [Choice c []] \<and> length rounds < 5 \<and>
       response (chat be ex sm h um w) = text_of c \<and>
       history (chat be ex sm h um w) =
         trim_history h @ [Msg ''user'' um, Msg ''assistant'' (text_of c)]))"
  using chat_rounds_cases [of be ex "trim_history h" um 5
      "[sm] @ trim_history h @ [Msg ''user'' um]" "[]" "[]" w]
  by (simp add: chat_def max_tool_rounds_def Let_def)

lemma chat_rounds_always_tools:
  assumes tools: "\<And>w m. is_tool_round (fst (be w m))"
  shows "response (chat_rounds be ex h um k messages called tr w) = stall_phrase \<and>
         history (chat_rounds be ex h um k messages called tr w) = h \<and>
         length (trace (chat_rounds be ex h um k messages called tr w)) = length tr + k"
proof (induction k arbitrary: messages called tr w)
  case 0
  show ?case by simp
next
  case (Suc k)
  obtain r w1 where be: "be w messages = (r, w1)" by (cases "be w messages")
  from tools [of w messages] be obtain content tcs where r: "r = Choice content tcs" "tcs \<noteq> []"
    by (cases r) (auto simp: is_tool_round_def)
  obtain m' c' w2 where run:
    "run_tool_calls ex tcs (messages @ [AssistantToolCalls content tcs]) called w1 = (m', c', w2)"
    by (cases "run_tool_calls ex tcs (messages @ [AssistantToolCalls content tcs]) called w1")
  have step: "chat_rounds be ex h um (Suc k) messages called tr w =
              chat_rounds be ex h um k m' c' (tr @ [Choice content tcs]) w2"
    using be r run by simp
  show ?case unfolding step using Suc.IH [of m' c' "tr @ [Choice content tcs]" w2] by simp
qed

lemma chat_always_tools:
  assumes "\<And>w m. is_tool_round (fst (be w m))"
  shows "response (chat be ex sm h um w) = stall_phrase \<and>
         history (chat be ex sm h um w) = trim_history h \<and>
         length (trace (chat be ex sm h um w)) = 5"
  using chat_rounds_always_tools [of be ex "trim_history h" um 5
      "[sm] @ trim_history h @ [Msg ''user'' um]" "[]" "[]" w, OF assms]
  by (simp add: chat_def max_tool_rounds_def Let_def)

lemma chat_trace_bound: "length (trace (chat be ex sm h um w)) \<le> 5"
  using chat_cases [of be ex sm h um w] by auto

lemma chat_api_error:
  assumes "ApiError e \<in> set (trace (chat be ex sm h um w))"
  shows "response (chat be ex sm h um w) = api_error_phrase \<and>
         history (chat be ex sm h um w) = trim_history h \<and>
         last (trace (chat be ex sm h um w)) = ApiError e"
proof -
  from chat_cases [of be ex sm h um w] obtain rounds where
    all: "list_all is_tool_round rounds" and
    cases: "(trace (chat be ex sm h um w) = rounds \<and> length rounds = 5 \<and>
       response (chat be ex sm h um w) = stall_phrase \<and>
       history (chat be ex sm h um w) = trim_history h) \<or>
      (\<exists>e. trace (chat be ex sm h um w) = rounds @ [ApiError e] \<and> length rounds < 5 \<and>
       response (chat be ex sm h um w) = api_error_phrase \<and>
       history (chat be ex sm h um w) = trim_history h) \<or>
      (\<exists>c. trace (chat be ex sm h um w) = rounds @ [Choice c []] \<and> length rounds < 5 \<and>
       response (chat be ex sm h um w) = text_of c \<and>
       history (chat be ex sm h um w) =
         trim_history h @ [Msg ''user'' um, Msg ''assistant'' (text_of c)])"
    by blast
  have not_in: "ApiError e \<notin> set rounds"
    using all by (auto simp: list_all_iff is_tool_round_def)
  from cases assms not_in show ?thesis by auto
qed

lemma chat_final_text:
  assumes "trace (chat be ex sm h um w) \<noteq> []"
    and "last (trace (chat be ex sm h um w)) = Choice c []"
  shows "response (chat be ex sm h um w) = text_of c \<and>
         history (chat be ex sm h um w) =
           trim_history h @ [Msg ''user'' um, Msg ''assistant'' (text_of c)] \<and>
         tools_called (chat be ex sm h um w) =
           concat (map invoked (butlast (trace (chat be ex sm h um w)))) \<and>
         list_all is_tool_round (butlast (trace (chat be ex sm h um w)))"
proof -
  from chat_cases [of be ex sm h um w] obtain rounds where
    all: "list_all is_tool_round rounds" and
    tc: "tools_called (chat be ex sm h um w) = concat (map invoked rounds)" and
    cases: "(trace (chat be ex sm h um w) = rounds \<and> length rounds = 5 \<and>
       response (chat be ex sm h um w) = stall_phrase \<and>
       history (chat be ex sm h um w) = trim_history h) \<or>
      (\<exists>e. trace (chat be ex sm h um w) = rounds @ [ApiError e] \<and> length rounds < 5 \<and>
       response (chat be ex sm h um w) = api_error_phrase \<and>
       history (chat be ex sm h um w) = trim_history h) \<or>
      (\<exists>c. trace (chat be ex sm h um w) = rounds @ [Choice c []] \<and> length rounds < 5 \<and>
       response (chat be ex sm h um w) = text_of c \<and>
       history (chat be ex sm h um w) =
         trim_history h @ [Msg ''user'' um, Msg ''assistant'' (text_of c)])"
    by blast
  have not_in: "Choice c [] \<notin> set rounds"
    using all by (auto simp: list_all_iff is_tool_round_def)
  from cases show ?thesis
  proof (elim disjE conjE exE)
    assume "trace (chat be ex sm h um w) = rounds" "length rounds = 5"
    with assms not_in show ?thesis using last_in_set by metis
  next
    fix e assume "trace (chat be ex sm h um w) = rounds @ [ApiError e]"
    with assms show ?thesis by simp
  next
    fix c' assume "trace (chat be ex sm h um w) = rounds @ [Choice c' []]"
      "response (chat be ex sm h um w) = text_of c'"
      "history (chat be ex sm h um w) =
         trim_history h @ [Msg ''user'' um, Msg ''assistant'' (text_of c')]"
    with assms tc all show ?thesis by simp
  qed
qed

lemma set_trim_history: "set (trim_history h) \<subseteq> set h"
  by (auto simp: trim_history_def dest: in_set_takeD in_set_dropD)

lemma length_long_history: "length long_history = 42"
  by (simp add: long_history_def eval_nat_numeral)

lemma trim_long_history: "length (trim_history long_history) = 40"
  by (simp add: trim_history_def MAX_HISTORY_def length_long_history)


text \<open>
  C1. One call of \<open>chat\<close> invokes the backend at most 5 times, whatever the
  backend does. When the backend answers every invocation with tool calls, it is invoked
  exactly 5 times, \<open>chat\<close> returns the stall-recovery phrase, and the returned history is the
  trimmed input history: every entry of it is an entry of the input, and it is the input
  itself when the input has at most 40 entries.
\<close>

theorem C1_round_budget:
  "length (trace (chat be ex sm h um w)) \<le> 5 \<and>
   ((\<forall>w' m. is_tool_round (fst (be w' m))) \<longrightarrow>
      length (trace (chat be ex sm h um w)) = 5 \<and>
      response (chat be ex sm h um w) = stall_phrase \<and>
      history (chat be ex sm h um w) = trim_history h \<and>
      set (history (chat be ex sm h um w)) \<subseteq> set h \<and>
      (length h \<le> 40 \<longrightarrow> history (chat be ex sm h um w) = h))"
proof (intro conjI impI)
  show "length (trace (chat be ex sm h um w)) \<le> 5" by (rule chat_trace_bound)
next
  assume "\<forall>w' m. is_tool_round (fst (be w' m))"
  then have tools: "\<And>w' m. is_tool_round (fst (be w' m))" by blast
  note r = chat_always_tools [of be ex sm h um w, OF tools]
  from r show "length (trace (chat be ex sm h um w)) = 5" by simp
  from r show "response (chat be ex sm h um w) = stall_phrase" by simp
  from r show "history (chat be ex sm h um w) = trim_history h" by simp
  from r show "set (history (chat be ex sm h um w)) \<subseteq> set h"
    by (simp add: set_trim_history)
  assume "length h \<le> 40"
  with r show "history (chat be ex sm h um w) = h" by (simp add: trim_history_short)
qed

text \<open>The property on a backend that always asks for a knowledge-base search.\<close>

theorem C1_round_budget_witness:
  "length (trace (chat tool_loop_backend echo_dispatcher system0
              [Msg ''assistant'' ''Welcome''] ''hi'' ())) = 5 \<and>
   response (chat tool_loop_backend echo_dispatcher system0
              [Msg ''assistant'' ''Welcome''] ''hi'' ()) = stall_phrase \<and>
   history (chat tool_loop_backend echo_dispatcher system0
              [Msg ''assistant'' ''Welcome''] ''hi'' ()) = [Msg ''assistant'' ''Welcome'']"
  using C1_round_budget [of tool_loop_backend echo_dispatcher system0
      "[Msg ''assistant'' ''Welcome'']" "''hi''" "()"]
  by (simp add: tool_loop_backend_def is_tool_round_def trim_history_short)

text \<open>
  With a history of 42 entries and the same backend the budget is exhausted, and the history
  returned is not the input history.
\<close>

theorem C1_input_history_counterexample:
  "response (chat tool_loop_backend echo_dispatcher system0 long_history ''hi'' ()) = stall_phrase \<and>
   history (chat tool_loop_backend echo_dispatcher system0 long_history ''hi'' ()) \<noteq> long_history"
proof -
  have tools: "\<And>w m. is_tool_round (fst (tool_loop_backend w m))"
    by (simp add: tool_loop_backend_def is_tool_round_def)
  note r = chat_always_tools [of tool_loop_backend echo_dispatcher system0 long_history "''hi''" "()",
      OF tools]
  then have "length (history (chat tool_loop_backend echo_dispatcher system0 long_history ''hi'' ()))
      = 40"
    by (simp add: trim_long_history)
  then have "history (chat tool_loop_backend echo_dispatcher system0 long_history ''hi'' ())
      \<noteq> long_history"
    using length_long_history by auto
  with r show ?thesis by simp
qed

text \<open>
  C5. When a backend invocation of the turn raises, that invocation is the last
  one, \<open>chat\<close> returns the fallback phrase, and the returned history is the trimmed input
  history: every entry of it is an entry of the input (no record of an earlier tool round of
  the turn is in it), and it is the input itself when the input has at most 40 entries.
\<close>

theorem C5_backend_failure:
  "ApiError e \<in> set (trace (chat be ex sm h um w)) \<longrightarrow>
     response (chat be ex sm h um w) = api_error_phrase \<and>
     last (trace (chat be ex sm h um w)) = ApiError e \<and>
     history (chat be ex sm h um w) = trim_history h \<and>
     set (history (chat be ex sm h um w)) \<subseteq> set h \<and>
     (length h \<le> 40 \<longrightarrow> history (chat be ex sm h um w) = h)"
proof
  assume "ApiError e \<in> set (trace (chat be ex sm h um w))"
  from chat_api_error [OF this] show
    "response (chat be ex sm h um w) = api_error_phrase \<and>
     last (trace (chat be ex sm h um w)) = ApiError e \<and>
     history (chat be ex sm h um w) = trim_history h \<and>
     set (history (chat be ex sm h um w)) \<subseteq> set h \<and>
     (length h \<le> 40 \<longrightarrow> history (chat be ex sm h um w) = h)"
    by (simp add: set_trim_history trim_history_short)
qed

lemma tool_then_fail_run:
  "chat tool_then_fail_backend echo_dispatcher system0 h um 0 =
     \<lparr>response = api_error_phrase, history = trim_history h,
      tools_called = [''search_knowledge_base''],
      trace = [Choice None [ToolCall ''tc_1'' ''search_knowledge_base'' ''{}''],
               ApiError ''API timeout''],
      world = 2\<rparr>"
  by (simp add: chat_def max_tool_rounds_def eval_nat_numeral tool_then_fail_backend_def
        echo_dispatcher_def)

text \<open>The property on a backend that asks for a tool once and then raises.\<close>

theorem C5_backend_failure_witness:
  "response (chat tool_then_fail_backend echo_dispatcher system0
               [Msg ''assistant'' ''Welcome''] ''hi'' 0) = api_error_phrase \<and>
   history (chat tool_then_fail_backend echo_dispatcher system0
               [Msg ''assistant'' ''Welcome''] ''hi'' 0) = [Msg ''assistant'' ''Welcome''] \<and>
   tools_called (chat tool_then_fail_backend echo_dispatcher system0
               [Msg ''assistant'' ''Welcome''] ''hi'' 0) = [''search_knowledge_base'']"
  using C5_backend_failure [of "''API timeout''" tool_then_fail_backend echo_dispatcher system0
      "[Msg ''assistant'' ''Welcome'']" "''hi''" 0]
  by (simp add: tool_then_fail_run)

text \<open>
  With a history of 42 entries and a backend that raises, the fallback phrase comes back with
  a history that is not the input history.
\<close>

theorem C5_input_history_counterexample:
  "ApiError ''API timeout'' \<in> set (trace (chat failing_backend echo_dispatcher system0 long_history ''hi'' ())) \<and>
   response (chat failing_backend echo_dispatcher system0 long_history ''hi'' ()) = api_error_phrase \<and>
   history (chat failing_backend echo_dispatcher system0 long_history ''hi'' ()) \<noteq> long_history"
proof -
  have run: "chat failing_backend echo_dispatcher system0 long_history ''hi'' () =
     \<lparr>response = api_error_phrase, history = trim_history long_history, tools_called = [],
      trace = [ApiError ''API timeout''], world = ()\<rparr>"
    by (simp add: chat_def max_tool_rounds_def eval_nat_numeral failing_backend_def)
  have "trim_history long_history \<noteq> long_history"
    using trim_long_history length_long_history by auto
  with run show ?thesis by simp
qed

text \<open>
  C6. When the last backend answer of the turn is plain text (an answer without
  tool calls), every earlier answer of the turn is a tool round, \<open>chat\<close> returns that text
  (\<open>""\<close> for a missing content), the returned history is the trimmed input history followed
  by exactly two entries, the user entry with the new text and the assistant entry with the
  final text, which is the input history followed by these two entries when the input has at
  most 40 entries, and the tools-called list is the list of the tool names of the earlier
  answers, one per invocation, in order.
\<close>

theorem C6_final_text:
  "trace (chat be ex sm h um w) \<noteq> [] \<and> last (trace (chat be ex sm h um w)) = Choice c [] \<longrightarrow>
     response (chat be ex sm h um w) = text_of c \<and>
     history (chat be ex sm h um w) =
       trim_history h @ [Msg ''user'' um, Msg ''assistant'' (text_of c)] \<and>
     (length h \<le> 40 \<longrightarrow>
        history (chat be ex sm h um w) = h @ [Msg ''user'' um, Msg ''assistant'' (text_of c)]) \<and>
     tools_called (chat be ex sm h um w) =
       concat (map invoked (butlast (trace (chat be ex sm h um w)))) \<and>
     list_all is_tool_round (butlast (trace (chat be ex sm h um w)))"
proof
  assume "trace (chat be ex sm h um w) \<noteq> [] \<and> last (trace (chat be ex sm h um w)) = Choice c []"
  then have "trace (chat be ex sm h um w) \<noteq> []"
    and "last (trace (chat be ex sm h um w)) = Choice c []"
    by simp_all
  from chat_final_text [OF this] show
    "response (chat be ex sm h um w) = text_of c \<and>
     history (chat be ex sm h um w) =
       trim_history h @ [Msg ''user'' um, Msg ''assistant'' (text_of c)] \<and>
     (length h \<le> 40 \<longrightarrow>
        history (chat be ex sm h um w) = h @ [Msg ''user'' um, Msg ''assistant'' (text_of c)]) \<and>
     tools_called (chat be ex sm h um w) =
       concat (map invoked (butlast (trace (chat be ex sm h um w)))) \<and>
     list_all is_tool_round (butlast (trace (chat be ex sm h um w)))"
    by (simp add: trim_history_short)
qed

lemma scripted_run:
  "chat scripted_backend echo_dispatcher system0 h um 0 =
     \<lparr>response = ''A haircut is 85 dollars and takes about an hour.'',
      history = trim_history h @ [Msg ''user'' um,
         Msg ''assistant'' ''A haircut is 85 dollars and takes about an hour.''],
      tools_called = [''search_knowledge_base''],
      trace = [Choice None [ToolCall ''tc_1'' ''search_knowledge_base'' ''{}''],
               Choice (Some ''A haircut is 85 dollars and takes about an hour.'') []],
      world = 2\<rparr>"
  by (simp add: chat_def max_tool_rounds_def eval_nat_numeral scripted_backend_def
        echo_dispatcher_def Let_def)

text \<open>The property on the backend of the tool-call test: one search, then the answer.\<close>

theorem C6_final_text_witness:
  "response (chat scripted_backend echo_dispatcher system0 [] ''How much is a haircut?'' 0)
     = ''A haircut is 85 dollars and takes about an hour.'' \<and>
   history (chat scripted_backend echo_dispatcher system0 [] ''How much is a haircut?'' 0)
     = [Msg ''user'' ''How much is a haircut?'',
        Msg ''assistant'' ''A haircut is 85 dollars and takes about an hour.''] \<and>
   tools_called (chat scripted_backend echo_dispatcher system0 [] ''How much is a haircut?'' 0)
     = [''search_knowledge_base'']"
  using C6_final_text [of scripted_backend echo_dispatcher system0 "[]"
      "''How much is a haircut?''" 0 "Some ''A haircut is 85 dollars and takes about an hour.''"]
  by (simp add: scripted_run text_of_def invoked_def is_tool_round_def)

text \<open>
  With a history of 42 entries the same turn ends with plain text, and the returned history is
  not the input history followed by the two new entries.
\<close>

theorem C6_input_history_counterexample:
  "last (trace (chat scripted_backend echo_dispatcher system0 long_history ''hi'' 0))
     = Choice (Some ''A haircut is 85 dollars and takes about an hour.'') [] \<and>
   history (chat scripted_backend echo_dispatcher system0 long_history ''hi'' 0) \<noteq>
     long_history @ [Msg ''user'' ''hi'',
        Msg ''assistant'' ''A haircut is 85 dollars and takes about an hour.'']"
proof -
  have "trim_history long_history \<noteq> long_history"
    using trim_long_history length_long_history by auto
  then show ?thesis by (simp add: scripted_run)
qed

section \<open>The segmenter\<close>

lemma accumulate_suppressed: "is_processing c \<Longrightarrow> accumulate tp payload c = Some (c, None)"
  by (simp add: accumulate_def)

lemma on_media_suppressed: "is_processing c \<Longrightarrow> on_media tp payload c ost = Some (c, ost, None)"
  by (simp add: on_media_def accumulate_suppressed)

lemma feed_suppressed: "is_processing c \<Longrightarrow> feed tp payloads c ost = Some (c, ost, [])"
  by (induction payloads) (simp_all add: on_media_suppressed)

lemma accumulate_speech:
  assumes "\<not> is_processing c" "speech tp p"
  shows "accumulate tp p c =
     Some (c\<lparr>audio_buffer := audio_buffer c @ frame_bytes tp p, is_speaking := True,
             silence_count := 0\<rparr>, None)"
  using assms
  by (auto simp: accumulate_def speech_def decodable_def frame_bytes_def Let_def
        SILENCE_THRESHOLD_def)

lemma accumulate_silence_keep:
  assumes "\<not> is_processing c" "is_speaking c" "silence tp p"
    and "Suc (silence_count c) < 30 \<or> length (audio_buffer c) + length (frame_bytes tp p) \<le> 3200"
  shows "accumulate tp p c =
     Some (c\<lparr>audio_buffer := audio_buffer c @ frame_bytes tp p,
             silence_count := Suc (silence_count c)\<rparr>, None)"
  using assms
  by (auto simp: accumulate_def silence_def decodable_def frame_bytes_def Let_def
        SILENCE_THRESHOLD_def CHUNK_THRESHOLD_def)

lemma accumulate_silence_emit:
  assumes "\<not> is_processing c" "is_speaking c" "silence tp p"
    and "30 \<le> Suc (silence_count c)" "3200 < length (audio_buffer c) + length (frame_bytes tp p)"
  shows "accumulate tp p c =
     Some (c\<lparr>audio_buffer := [], is_speaking := False, silence_count := 0,
             is_processing := True\<rparr>, Some (audio_buffer c @ frame_bytes tp p))"
  using assms
  by (auto simp: accumulate_def silence_def decodable_def frame_bytes_def Let_def
        SILENCE_THRESHOLD_def CHUNK_THRESHOLD_def)

lemma on_media_keep:
  "accumulate tp p c = Some (c', None) \<Longrightarrow> on_media tp p c ost = Some (c', ost, None)"
  by (simp add: on_media_def)

lemma feed_append:
  "feed tp (xs @ ys) c ost =
     (case feed tp xs c ost of
        None \<Rightarrow> None
      | Some (c', ost', es) \<Rightarrow>
          (case feed tp ys c' ost' of
             None \<Rightarrow> None
           | Some (c'', ost'', es') \<Rightarrow> Some (c'', ost'', es @ es')))"
  by (induction xs arbitrary: c ost) (auto split: option.splits)

lemma feed_append_quiet:
  "feed tp xs c ost = Some (c', ost', []) \<Longrightarrow> feed tp (xs @ ys) c ost = feed tp ys c' ost'"
  by (simp add: feed_append split: option.splits)

lemma feed_speech:
  assumes "hi \<noteq> []" "list_all (speech tp) hi" "\<not> is_processing c"
  shows "feed tp hi c ost =
     Some (c\<lparr>audio_buffer := audio_buffer c @ raw_bytes tp hi, is_speaking := True,
             silence_count := 0\<rparr>, ost, [])"
  using assms
proof (induction hi arbitrary: c rule: list_nonempty_induct)
  case (single p)
  then show ?case
    by (simp add: on_media_keep [OF accumulate_speech] raw_bytes_def)
next
  case (cons p ps)
  from cons.prems have p: "speech tp p" and ps: "list_all (speech tp) ps" by simp_all
  let ?c1 = "c\<lparr>audio_buffer := audio_buffer c @ frame_bytes tp p, is_speaking := True,
             silence_count := 0\<rparr>"
  have step: "on_media tp p c ost = Some (?c1, ost, None)"
    using cons.prems p by (simp add: on_media_keep [OF accumulate_speech])
  have "\<not> is_processing ?c1" using cons.prems by simp
  from cons.IH [OF ps this] step show ?case
    by (simp add: raw_bytes_def)
qed

lemma feed_silence_keep:
  assumes "list_all (silence tp) lo" "\<not> is_processing c" "is_speaking c"
    and "silence_count c + length lo < 30 \<or>
         length (audio_buffer c) + length (raw_bytes tp lo) \<le> 3200"
  shows "feed tp lo c ost =
     Some (c\<lparr>audio_buffer := audio_buffer c @ raw_bytes tp lo,
             silence_count := silence_count c + length lo\<rparr>, ost, [])"
  using assms
proof (induction lo arbitrary: c)
  case Nil
  then show ?case by (simp add: raw_bytes_def)
next
  case (Cons p ps)
  from Cons.prems have p: "silence tp p" and ps: "list_all (silence tp) ps" by simp_all
  let ?c1 = "c\<lparr>audio_buffer := audio_buffer c @ frame_bytes tp p,
             silence_count := Suc (silence_count c)\<rparr>"
  have "Suc (silence_count c) < 30 \<or> length (audio_buffer c) + length (frame_bytes tp p) \<le> 3200"
    using Cons.prems(4) by (auto simp: raw_bytes_def)
  then have step: "on_media tp p c ost = Some (?c1, ost, None)"
    using Cons.prems p by (simp add: on_media_keep [OF accumulate_silence_keep])
  have c1: "\<not> is_processing ?c1" "is_speaking ?c1" using Cons.prems by simp_all
  have "silence_count ?c1 + length ps < 30 \<or>
         length (audio_buffer ?c1) + length (raw_bytes tp ps) \<le> 3200"
    using Cons.prems(4) by (auto simp: raw_bytes_def)
  from Cons.IH [OF ps c1 this] step show ?case
    by (simp add: raw_bytes_def)
qed


lemma dispatch_utterance_buffer:
  "dispatch_utterance tp u c ost = (c', ost') \<Longrightarrow>
     audio_buffer c' = audio_buffer c \<and> is_speaking c' = is_speaking c \<and>
     silence_count c' = silence_count c"
  by (auto simp: dispatch_utterance_def split: prod.splits sum.splits option.splits if_splits)

lemma idle_reset:
  "idle c \<Longrightarrow>
   c\<lparr>audio_buffer := [], is_speaking := False, silence_count := 0, is_processing := True\<rparr>
   = c\<lparr>is_processing := True\<rparr>"
  by (cases c) (simp add: idle_def)

lemma segment_last_frame:
  assumes idle: "idle c" and hi: "hi \<noteq> []" "list_all (speech tp) hi"
    and lo: "list_all (silence tp) lo" "30 \<le> length lo"
    and total: "3200 < length (raw_bytes tp (hi @ lo))"
    and first: "length lo = 30 \<or> length (raw_bytes tp (hi @ butlast lo)) \<le> 3200"
  shows "\<exists>c1. feed tp (hi @ butlast lo) c ost = Some (c1, ost, []) \<and>
           accumulate tp (last lo) c1 =
             Some (c\<lparr>is_processing := True\<rparr>, Some (raw_bytes tp (hi @ lo)))"
proof -
  from lo have ne: "lo \<noteq> []" by auto
  then have split: "lo = butlast lo @ [last lo]" by simp
  define c1 where "c1 = c\<lparr>audio_buffer := audio_buffer c @ raw_bytes tp hi, is_speaking := True,
             silence_count := 0\<rparr>"
  define c2 where "c2 = c1\<lparr>audio_buffer := audio_buffer c1 @ raw_bytes tp (butlast lo),
             silence_count := silence_count c1 + length (butlast lo)\<rparr>"
  have np: "\<not> is_processing c" and buf: "audio_buffer c = []" using idle by (simp_all add: idle_def)
  have c1: "\<not> is_processing c1" "is_speaking c1" "silence_count c1 = 0"
    "audio_buffer c1 = raw_bytes tp hi"
    using np buf by (simp_all add: c1_def)
  have c2: "\<not> is_processing c2" "is_speaking c2" "silence_count c2 = length lo - 1"
    "audio_buffer c2 = raw_bytes tp hi @ raw_bytes tp (butlast lo)"
    using c1 by (simp_all add: c2_def)
  have reset: "c2\<lparr>audio_buffer := [], is_speaking := False, silence_count := 0,
             is_processing := True\<rparr> = c\<lparr>is_processing := True\<rparr>"
    using idle_reset [OF idle] by (simp add: c2_def c1_def)
  have f1: "feed tp hi c ost = Some (c1, ost, [])"
    unfolding c1_def using hi np by (rule feed_speech)
  have sil_init: "list_all (silence tp) (butlast lo)" and sil_last: "silence tp (last lo)"
    using lo(1) ne by (auto simp: list_all_iff dest: in_set_butlastD)
  have "silence_count c1 + length (butlast lo) < 30 \<or>
        length (audio_buffer c1) + length (raw_bytes tp (butlast lo)) \<le> 3200"
    using first c1 by (auto simp: raw_bytes_def)
  then have f2: "feed tp (butlast lo) c1 ost = Some (c2, ost, [])"
    unfolding c2_def using sil_init c1(1,2) by (intro feed_silence_keep)
  have all: "raw_bytes tp (hi @ lo) = raw_bytes tp hi @ raw_bytes tp (butlast lo) @ frame_bytes tp (last lo)"
    by (subst split) (simp add: raw_bytes_def)
  have "accumulate tp (last lo) c2 =
     Some (c2\<lparr>audio_buffer := [], is_speaking := False, silence_count := 0,
             is_processing := True\<rparr>, Some (audio_buffer c2 @ frame_bytes tp (last lo)))"
  proof (rule accumulate_silence_emit)
    show "\<not> is_processing c2" by (rule c2)
    show "is_speaking c2" by (rule c2)
    show "silence tp (last lo)" by (rule sil_last)
    show "30 \<le> Suc (silence_count c2)" using lo(2) c2 by simp
    show "3200 < length (audio_buffer c2) + length (frame_bytes tp (last lo))"
      using total c2 by (simp add: all)
  qed
  then have acc: "accumulate tp (last lo) c2 =
     Some (c\<lparr>is_processing := True\<rparr>, Some (raw_bytes tp (hi @ lo)))"
    by (simp only: reset c2 all append_assoc)
  have "feed tp (hi @ butlast lo) c ost = Some (c2, ost, [])"
    by (simp only: feed_append_quiet [OF f1] f2)
  with acc show ?thesis by blast
qed

lemma segment_emits:
  assumes idle: "idle c" and hi: "hi \<noteq> []" "list_all (speech tp) hi"
    and lo: "list_all (silence tp) lo" "30 \<le> length lo"
    and total: "3200 < length (raw_bytes tp (hi @ lo))"
    and first: "length lo = 30 \<or> length (raw_bytes tp (hi @ butlast lo)) \<le> 3200"
  shows "feed tp (hi @ lo) c ost =
     (case dispatch_utterance tp (raw_bytes tp (hi @ lo)) (c\<lparr>is_processing := True\<rparr>) ost of
        (c', ost') \<Rightarrow> Some (c', ost', [raw_bytes tp (hi @ lo)]))"
proof -
  from lo have "lo \<noteq> []" by auto
  then have split: "hi @ lo = (hi @ butlast lo) @ [last lo]" by simp
  from segment_last_frame [OF assms] obtain c1 where
    before: "feed tp (hi @ butlast lo) c ost = Some (c1, ost, [])" and
    acc: "accumulate tp (last lo) c1 =
             Some (c\<lparr>is_processing := True\<rparr>, Some (raw_bytes tp (hi @ lo)))"
    by blast
  have f3: "feed tp [last lo] c1 ost =
     (case dispatch_utterance tp (raw_bytes tp (hi @ lo)) (c\<lparr>is_processing := True\<rparr>) ost of
        (c', ost') \<Rightarrow> Some (c', ost', [raw_bytes tp (hi @ lo)]))"
    by (simp add: on_media_def acc split: prod.splits)
  have "feed tp (hi @ lo) c ost = feed tp ((hi @ butlast lo) @ [last lo]) c ost"
    using split by simp
  also have "\<dots> = feed tp [last lo] c1 ost"
    by (rule feed_append_quiet [OF before])
  finally show ?thesis using f3 by simp
qed

lemma dispatch_utterance_plays:
  "is_processing c \<Longrightarrow>
   is_processing (fst (dispatch_utterance tp u c ost)) =
     (\<exists>agent_text audio sid.
        fst (process_audio tp (conn_call_sid c) u ost) = Inr (agent_text, audio) \<and>
        audio \<noteq> [] \<and> stream_sid c = Some sid \<and> sid \<noteq> [] \<and> send_audio tp sid audio)"
  by (auto simp: dispatch_utterance_def split: prod.splits sum.splits option.splits)

lemma dispatch_utterance_flag:
  "dispatch_utterance tp u c ost = (c', ost') \<Longrightarrow> c' = c \<or> c' = c\<lparr>is_processing := False\<rparr>"
  by (auto simp: dispatch_utterance_def split: prod.splits sum.splits option.splits if_splits)

lemma idle_listening: "idle c \<Longrightarrow> c\<lparr>is_processing := True, is_processing := False\<rparr> = c"
  by (cases c) (simp add: idle_def)

lemma segment_keeps:
  assumes idle: "idle c" and hi: "hi \<noteq> []" "list_all (speech tp) hi"
    and lo: "list_all (silence tp) lo"
    and total: "length (raw_bytes tp (hi @ lo)) \<le> 3200"
  shows "feed tp (hi @ lo) c ost =
     Some (c\<lparr>audio_buffer := raw_bytes tp (hi @ lo), is_speaking := True,
             silence_count := length lo\<rparr>, ost, [])"
proof -
  define c1 where "c1 = c\<lparr>audio_buffer := audio_buffer c @ raw_bytes tp hi, is_speaking := True,
             silence_count := 0\<rparr>"
  have np: "\<not> is_processing c" and buf: "audio_buffer c = []" using idle by (simp_all add: idle_def)
  have c1: "\<not> is_processing c1" "is_speaking c1" "silence_count c1 = 0"
    "audio_buffer c1 = raw_bytes tp hi"
    using np buf by (simp_all add: c1_def)
  have f1: "feed tp hi c ost = Some (c1, ost, [])"
    unfolding c1_def using hi np by (rule feed_speech)
  have "silence_count c1 + length lo < 30 \<or>
        length (audio_buffer c1) + length (raw_bytes tp lo) \<le> 3200"
    using total c1 by (simp add: raw_bytes_def)
  from feed_silence_keep [OF lo c1(1,2) this]
  have "feed tp lo c1 ost =
    Some (c1\<lparr>audio_buffer := audio_buffer c1 @ raw_bytes tp lo,
             silence_count := silence_count c1 + length lo\<rparr>, ost, [])" .
  also have "c1\<lparr>audio_buffer := audio_buffer c1 @ raw_bytes tp lo,
             silence_count := silence_count c1 + length lo\<rparr> =
     c\<lparr>audio_buffer := raw_bytes tp (hi @ lo), is_speaking := True, silence_count := length lo\<rparr>"
    using buf by (simp add: c1_def raw_bytes_def)
  finally show ?thesis by (simp only: feed_append_quiet [OF f1])
qed

lemma frame_bytes_transport0: "frame_bytes transport0 p = map byte_of_char p"
  by (simp add: frame_bytes_def transport0_def plain_decode_def)

lemma length_raw_bytes_transport0:
  "length (raw_bytes transport0 ps) = sum_list (map length ps)"
  by (simp add: raw_bytes_def frame_bytes_transport0 length_concat comp_def)

lemma rms_energy_transport0: "rms_energy transport0 = first_byte_energy"
  by (simp add: transport0_def)

lemma b64decode_transport0: "b64decode transport0 p = Some (map byte_of_char p)"
  by (simp add: transport0_def plain_decode_def)

lemma length_loud_frame: "length (loud_frame n) = n"
  by (simp add: loud_frame_def)

lemma length_quiet_frame: "length (quiet_frame n) = n"
  by (simp add: quiet_frame_def)

lemma speech_loud_frame: "0 < n \<Longrightarrow> speech transport0 (loud_frame n)"
  by (cases n)
     (simp_all add: speech_def decodable_def frame_bytes_transport0 b64decode_transport0
        rms_energy_transport0 loud_frame_def first_byte_energy_def byte_of_char_def
        SPEECH_RMS_THRESHOLD_def)

lemma silence_quiet_frame: "0 < n \<Longrightarrow> silence transport0 (quiet_frame n)"
  by (cases n)
     (simp_all add: silence_def decodable_def frame_bytes_transport0 b64decode_transport0
        rms_energy_transport0 quiet_frame_def first_byte_energy_def byte_of_char_def
        SPEECH_RMS_THRESHOLD_def)

lemma speech_transport1: "speech transport1 p = speech transport0 p"
  by (simp add: speech_def decodable_def frame_bytes_def transport1_def)

lemma silence_transport1: "silence transport1 p = silence transport0 p"
  by (simp add: silence_def decodable_def frame_bytes_def transport1_def)

lemma frame_bytes_transport1: "frame_bytes transport1 = frame_bytes transport0"
  by (rule ext) (simp add: frame_bytes_def transport1_def)

lemma raw_bytes_transport1: "raw_bytes transport1 ps = raw_bytes transport0 ps"
  by (simp add: raw_bytes_def frame_bytes_transport1)

lemma dispatch_transport1:
  "dispatch_utterance transport1 u (idle0\<lparr>is_processing := True\<rparr>) () =
     (idle0\<lparr>is_processing := False\<rparr>, ())"
  by (simp add: dispatch_utterance_def transport1_def silent_pipeline_def idle0_def)

lemma idle_idle0: "idle idle0"
  by (simp add: idle_def idle0_def)

lemma dispatch_transport0:
  "dispatch_utterance transport0 u (idle0\<lparr>is_processing := True\<rparr>) () =
     (idle0\<lparr>is_processing := True\<rparr>, ())"
  by (simp add: dispatch_utterance_def transport0_def canned_pipeline_def send_succeeds_def
        idle0_def)

text \<open>
  C7. While \<open>is_processing\<close> is set, a media event leaves the connection state (buffer,
  speaking flag, silence counter, suppression) and the pipeline state unchanged and hands no
  utterance on, whatever its payload and energy; so does any run of media events.
\<close>

theorem C7_suppression:
  "is_processing c \<longrightarrow>
     accumulate tp payload c = Some (c, None) \<and>
     on_media tp payload c ost = Some (c, ost, None) \<and>
     feed tp payloads c ost = Some (c, ost, [])"
  by (simp add: accumulate_suppressed on_media_suppressed feed_suppressed)

text \<open>The property on loud and quiet frames sent to a suppressed connection.\<close>

theorem C7_suppression_witness:
  "feed transport0 [loud_frame 160, quiet_frame 160, loud_frame 160]
      (idle0\<lparr>is_processing := True\<rparr>) () = Some (idle0\<lparr>is_processing := True\<rparr>, (), []) \<and>
   on_media transport0 (loud_frame 160) (idle0\<lparr>is_processing := True\<rparr>) ()
     = Some (idle0\<lparr>is_processing := True\<rparr>, (), None)"
  using C7_suppression [of "idle0\<lparr>is_processing := True\<rparr>" transport0 "loud_frame 160" "()"
      "[loud_frame 160, quiet_frame 160, loud_frame 160]"]
  by (simp del: feed.simps)

text \<open>
  C3. From an idle connection, a run of at least one speech frame followed by at least 30
  silence frames, whose bytes together are more than 3200, and in which the emission
  condition cannot hold before the last frame (there are exactly 30 silence frames, or the
  frames before the last one have at most 3200 bytes), emits nothing before its last frame
  and at the last frame hands exactly one utterance to the pipeline: the bytes of all the
  frames in order. The pipeline is entered with the buffer empty, the speaking flag cleared,
  the counter at 0 and \<open>is_processing\<close> set. After the pipeline run of the same handler the
  buffer is still empty, the flag cleared and the counter 0, and \<open>is_processing\<close> is still
  set exactly when the pipeline returned audio that is not empty, the stream id is known and
  not empty, and the audio was sent.
\<close>

theorem C3_segmenter_emission:
  "idle c \<and> hi \<noteq> [] \<and> list_all (speech tp) hi \<and> list_all (silence tp) lo \<and>
   30 \<le> length lo \<and> 3200 < length (raw_bytes tp (hi @ lo)) \<and>
   (length lo = 30 \<or> length (raw_bytes tp (hi @ butlast lo)) \<le> 3200) \<longrightarrow>
   (\<exists>c1. feed tp (hi @ butlast lo) c ost = Some (c1, ost, []) \<and>
         accumulate tp (last lo) c1 =
           Some (c\<lparr>is_processing := True\<rparr>, Some (raw_bytes tp (hi @ lo)))) \<and>
   audio_buffer (c\<lparr>is_processing := True\<rparr>) = [] \<and>
   \<not> is_speaking (c\<lparr>is_processing := True\<rparr>) \<and>
   silence_count (c\<lparr>is_processing := True\<rparr>) = 0 \<and>
   is_processing (c\<lparr>is_processing := True\<rparr>) \<and>
   (\<exists>c' ost'.
      feed tp (hi @ lo) c ost = Some (c', ost', [raw_bytes tp (hi @ lo)]) \<and>
      dispatch_utterance tp (raw_bytes tp (hi @ lo)) (c\<lparr>is_processing := True\<rparr>) ost = (c', ost') \<and>
      audio_buffer c' = [] \<and> \<not> is_speaking c' \<and> silence_count c' = 0 \<and>
      is_processing c' =
        (\<exists>agent_text audio sid.
           fst (process_audio tp (conn_call_sid c) (raw_bytes tp (hi @ lo)) ost)
             = Inr (agent_text, audio) \<and>
           audio \<noteq> [] \<and> stream_sid c = Some sid \<and> sid \<noteq> [] \<and> send_audio tp sid audio))"
proof (intro impI conjI)
  assume a: "idle c \<and> hi \<noteq> [] \<and> list_all (speech tp) hi \<and> list_all (silence tp) lo \<and>
   30 \<le> length lo \<and> 3200 < length (raw_bytes tp (hi @ lo)) \<and>
   (length lo = 30 \<or> length (raw_bytes tp (hi @ butlast lo)) \<le> 3200)"
  then have idle: "idle c" by simp
  from a show "\<exists>c1. feed tp (hi @ butlast lo) c ost = Some (c1, ost, []) \<and>
         accumulate tp (last lo) c1 =
           Some (c\<lparr>is_processing := True\<rparr>, Some (raw_bytes tp (hi @ lo)))"
    by (intro segment_last_frame) simp_all
  from idle show "audio_buffer (c\<lparr>is_processing := True\<rparr>) = []"
    and "\<not> is_speaking (c\<lparr>is_processing := True\<rparr>)"
    and "silence_count (c\<lparr>is_processing := True\<rparr>) = 0"
    and "is_processing (c\<lparr>is_processing := True\<rparr>)"
    by (simp_all add: idle_def)
  obtain c' ost' where d:
    "dispatch_utterance tp (raw_bytes tp (hi @ lo)) (c\<lparr>is_processing := True\<rparr>) ost = (c', ost')"
    by (cases "dispatch_utterance tp (raw_bytes tp (hi @ lo)) (c\<lparr>is_processing := True\<rparr>) ost")
  from a have f: "feed tp (hi @ lo) c ost = Some (c', ost', [raw_bytes tp (hi @ lo)])"
    by (simp add: segment_emits d)
  from dispatch_utterance_buffer [OF d] idle
  have state: "audio_buffer c' = [] \<and> \<not> is_speaking c' \<and> silence_count c' = 0"
    by (simp add: idle_def)
  from dispatch_utterance_plays [of "c\<lparr>is_processing := True\<rparr>" tp "raw_bytes tp (hi @ lo)" ost] d
  have flag: "is_processing c' =
        (\<exists>agent_text audio sid.
           fst (process_audio tp (conn_call_sid c) (raw_bytes tp (hi @ lo)) ost)
             = Inr (agent_text, audio) \<and>
           audio \<noteq> [] \<and> stream_sid c = Some sid \<and> sid \<noteq> [] \<and> send_audio tp sid audio)"
    by simp
  from f d state flag show "\<exists>c' ost'.
      feed tp (hi @ lo) c ost = Some (c', ost', [raw_bytes tp (hi @ lo)]) \<and>
      dispatch_utterance tp (raw_bytes tp (hi @ lo)) (c\<lparr>is_processing := True\<rparr>) ost = (c', ost') \<and>
      audio_buffer c' = [] \<and> \<not> is_speaking c' \<and> silence_count c' = 0 \<and>
      is_processing c' =
        (\<exists>agent_text audio sid.
           fst (process_audio tp (conn_call_sid c) (raw_bytes tp (hi @ lo)) ost)
             = Inr (agent_text, audio) \<and>
           audio \<noteq> [] \<and> stream_sid c = Some sid \<and> sid \<noteq> [] \<and> send_audio tp sid audio)"
    by blast
qed

text \<open>The property on 5 loud and 30 quiet frames of 160 bytes.\<close>

theorem C3_segmenter_emission_witness:
  "feed transport0 (replicate 5 (loud_frame 160) @ replicate 30 (quiet_frame 160)) idle0 () =
     Some (idle0\<lparr>is_processing := True\<rparr>, (),
           [raw_bytes transport0 (replicate 5 (loud_frame 160) @ replicate 30 (quiet_frame 160))]) \<and>
   length (raw_bytes transport0 (replicate 5 (loud_frame 160) @ replicate 30 (quiet_frame 160)))
     = 5600"
  using C3_segmenter_emission [of idle0 "replicate 5 (loud_frame 160)" transport0
      "replicate 30 (quiet_frame 160)" "()"]
  by (simp add: idle_idle0 list_all_iff speech_loud_frame silence_quiet_frame
        length_raw_bytes_transport0 sum_list_replicate length_loud_frame
        length_quiet_frame dispatch_transport0)

text \<open>
  Two loud and 30 quiet frames of 100 bytes fill the buffer to exactly 3200 bytes and no
  utterance is emitted; three loud and 31 quiet frames of 100 bytes emit an utterance that
  holds only the first 33 frames; and 5 loud and 30 quiet frames of 160 bytes emit their
  utterance to a pipeline that returns no audio, after which \<open>is_processing\<close> is not set.
\<close>

theorem C3_threshold_counterexample:
  "length (raw_bytes transport0 (replicate 2 (loud_frame 100) @ replicate 30 (quiet_frame 100)))
     = 3200 \<and>
   feed transport0 (replicate 2 (loud_frame 100) @ replicate 30 (quiet_frame 100)) idle0 () =
     Some (idle0\<lparr>audio_buffer :=
                   raw_bytes transport0 (replicate 2 (loud_frame 100) @ replicate 30 (quiet_frame 100)),
                 is_speaking := True, silence_count := 30\<rparr>, (), []) \<and>
   feed transport0 (replicate 3 (loud_frame 100) @ replicate 31 (quiet_frame 100)) idle0 () =
     Some (idle0\<lparr>is_processing := True\<rparr>, (),
           [raw_bytes transport0 (replicate 3 (loud_frame 100) @ replicate 30 (quiet_frame 100))]) \<and>
   feed transport1 (replicate 5 (loud_frame 160) @ replicate 30 (quiet_frame 160)) idle0 () =
     Some (idle0\<lparr>is_processing := False\<rparr>, (),
           [raw_bytes transport1 (replicate 5 (loud_frame 160) @ replicate 30 (quiet_frame 160))])"
proof (intro conjI)
  show len: "length (raw_bytes transport0 (replicate 2 (loud_frame 100) @ replicate 30 (quiet_frame 100)))
     = 3200"
    by (simp add: length_raw_bytes_transport0 sum_list_replicate length_loud_frame
          length_quiet_frame)
  have "feed transport0 (replicate 2 (loud_frame 100) @ replicate 30 (quiet_frame 100)) idle0 () =
     Some (idle0\<lparr>audio_buffer :=
                   raw_bytes transport0 (replicate 2 (loud_frame 100) @ replicate 30 (quiet_frame 100)),
                 is_speaking := True, silence_count := length (replicate 30 (quiet_frame 100))\<rparr>, (), [])"
    by (rule segment_keeps)
       (simp_all add: idle_idle0 list_all_iff speech_loud_frame silence_quiet_frame len)
  then show "feed transport0 (replicate 2 (loud_frame 100) @ replicate 30 (quiet_frame 100)) idle0 () =
     Some (idle0\<lparr>audio_buffer :=
                   raw_bytes transport0 (replicate 2 (loud_frame 100) @ replicate 30 (quiet_frame 100)),
                 is_speaking := True, silence_count := 30\<rparr>, (), [])"
    by simp
  have "feed transport0 (replicate 3 (loud_frame 100) @ replicate 30 (quiet_frame 100)) idle0 () =
     (case dispatch_utterance transport0
             (raw_bytes transport0 (replicate 3 (loud_frame 100) @ replicate 30 (quiet_frame 100)))
             (idle0\<lparr>is_processing := True\<rparr>) () of
        (c', ost') \<Rightarrow> Some (c', ost',
           [raw_bytes transport0 (replicate 3 (loud_frame 100) @ replicate 30 (quiet_frame 100))]))"
    by (rule segment_emits)
       (simp_all add: idle_idle0 list_all_iff speech_loud_frame silence_quiet_frame
          length_raw_bytes_transport0 sum_list_replicate length_loud_frame
          length_quiet_frame)
  then have emit: "feed transport0 (replicate 3 (loud_frame 100) @ replicate 30 (quiet_frame 100)) idle0 () =
     Some (idle0\<lparr>is_processing := True\<rparr>, (),
        [raw_bytes transport0 (replicate 3 (loud_frame 100) @ replicate 30 (quiet_frame 100))])"
    by (simp add: dispatch_transport0)
  define A where "A = replicate 3 (loud_frame 100) @ replicate 30 (quiet_frame 100)"
  have eq: "replicate 3 (loud_frame 100) @ replicate 31 (quiet_frame 100) = A @ [quiet_frame 100]"
  proof -
    have "replicate (Suc 30) (quiet_frame 100) = replicate 30 (quiet_frame 100) @ [quiet_frame 100]"
      by (simp only: replicate_Suc replicate_append_same)
    then show ?thesis by (simp add: A_def)
  qed
  have emitA: "feed transport0 A idle0 () =
      Some (idle0\<lparr>is_processing := True\<rparr>, (), [raw_bytes transport0 A])"
    using emit by (simp only: A_def)
  have "feed transport0 (A @ [quiet_frame 100]) idle0 () =
      Some (idle0\<lparr>is_processing := True\<rparr>, (), [raw_bytes transport0 A])"
    by (simp add: feed_append emitA feed_suppressed del: feed.simps)
  then show "feed transport0 (replicate 3 (loud_frame 100) @ replicate 31 (quiet_frame 100)) idle0 () =
     Some (idle0\<lparr>is_processing := True\<rparr>, (),
           [raw_bytes transport0 (replicate 3 (loud_frame 100) @ replicate 30 (quiet_frame 100))])"
    by (simp only: eq A_def [symmetric])
  have "feed transport1 (replicate 5 (loud_frame 160) @ replicate 30 (quiet_frame 160)) idle0 () =
     (case dispatch_utterance transport1
             (raw_bytes transport1 (replicate 5 (loud_frame 160) @ replicate 30 (quiet_frame 160)))
             (idle0\<lparr>is_processing := True\<rparr>) () of
        (c', ost') \<Rightarrow> Some (c', ost',
           [raw_bytes transport1 (replicate 5 (loud_frame 160) @ replicate 30 (quiet_frame 160))]))"
    by (rule segment_emits)
       (simp_all add: idle_idle0 list_all_iff speech_transport1 silence_transport1
          raw_bytes_transport1 speech_loud_frame silence_quiet_frame
          length_raw_bytes_transport0 sum_list_replicate length_loud_frame
          length_quiet_frame)
  then show "feed transport1 (replicate 5 (loud_frame 160) @ replicate 30 (quiet_frame 160)) idle0 () =
     Some (idle0\<lparr>is_processing := False\<rparr>, (),
           [raw_bytes transport1 (replicate 5 (loud_frame 160) @ replicate 30 (quiet_frame 160))])"
    by (simp add: dispatch_transport1)
qed

section \<open>The slot sweep\<close>

lemma empty_day:
  "sweep d [] 3600 68400 32400 =
     map (\<lambda>(s, e). \<lparr>start_time = s, end_time = e, date = d\<rparr>)
       [(''09:00'', ''10:00''), (''09:30'', ''10:30''), (''10:00'', ''11:00''),
        (''10:30'', ''11:30''), (''11:00'', ''12:00''), (''11:30'', ''12:30''),
        (''12:00'', ''13:00''), (''12:30'', ''13:30''), (''13:00'', ''14:00''),
        (''13:30'', ''14:30''), (''14:00'', ''15:00''), (''14:30'', ''15:30''),
        (''15:00'', ''16:00''), (''15:30'', ''16:30''), (''16:00'', ''17:00''),
        (''16:30'', ''17:30''), (''17:00'', ''18:00''), (''17:30'', ''18:30''),
        (''18:00'', ''19:00'')]"
  by (simp add: sweep.simps stride_def hhmm_def two_digits_def)

lemma busy_day:
  "sweep d [(36000, 39600)] 3600 68400 32400 =
     map (\<lambda>(s, e). \<lparr>start_time = s, end_time = e, date = d\<rparr>)
       [(''09:00'', ''10:00''), (''11:00'', ''12:00''), (''11:30'', ''12:30''),
        (''12:00'', ''13:00''), (''12:30'', ''13:30''), (''13:00'', ''14:00''),
        (''13:30'', ''14:30''), (''14:00'', ''15:00''), (''14:30'', ''15:30''),
        (''15:00'', ''16:00''), (''15:30'', ''16:30''), (''16:00'', ''17:00''),
        (''16:30'', ''17:30''), (''17:00'', ''18:00''), (''17:30'', ''18:30''),
        (''18:00'', ''19:00'')]"
  by (simp add: sweep.simps stride_def hhmm_def two_digits_def)


lemma sweep_skip:
  assumes "current + duration \<le> dend"
    and "first_conflict current (current + duration) busy = Some (bs, be)"
  shows "sweep d busy duration dend current = sweep d busy duration dend be"
  using assms by (subst sweep.simps) simp

lemma first_conflict_overlap:
  "first_conflict current slot_end busy = Some (bs, be) \<Longrightarrow>
     (bs, be) \<in> set busy \<and> current < be \<and> bs < slot_end"
  by (induction busy) (auto split: if_splits)

lemma first_conflict_first:
  "list_all (\<lambda>(s, e). \<not> (current < e \<and> s < slot_end)) pre \<Longrightarrow> current < be \<Longrightarrow>
   bs < slot_end \<Longrightarrow> first_conflict current slot_end (pre @ (bs, be) # post) = Some (bs, be)"
  by (induction pre) auto

lemma first_conflict_complete:
  "(bs, be) \<in> set busy \<Longrightarrow> current < be \<Longrightarrow> bs < slot_end \<Longrightarrow>
   \<exists>bs' be'. first_conflict current slot_end busy = Some (bs', be')"
  by (induction busy) auto

lemma slots_empty_calendar:
  "get_available_slots (Some []) d 60 stylist = sweep d [] 3600 68400 32400"
  by (cases stylist) (simp_all add: get_available_slots_def day_start_def day_end_def)

lemma slots_existing_appointment:
  "get_available_slots (Some [existing_appointment]) d 60 None =
     sweep d [(36000, 39600)] 3600 68400 32400"
  by (simp add: get_available_slots_def day_start_def day_end_def existing_appointment_def)

text \<open>
  C8. With no events, for every date string and a duration of 60 minutes, the search returns
  19 slots; the first is 09:00 to 10:00, the last is 18:00 to 19:00, and the start of the
  \<open>i\<close>-th slot is 09:00 plus \<open>i\<close> times 30 minutes.
\<close>

theorem C8_empty_calendar:
  "hd (get_available_slots (Some []) d 60 stylist)
     = \<lparr>start_time = ''09:00'', end_time = ''10:00'', date = d\<rparr> \<and>
   last (get_available_slots (Some []) d 60 stylist)
     = \<lparr>start_time = ''18:00'', end_time = ''19:00'', date = d\<rparr> \<and>
   length (get_available_slots (Some []) d 60 stylist) = 19 \<and>
   map start_time (get_available_slots (Some []) d 60 stylist)
     = map (\<lambda>i. hhmm (day_start + stride * int i)) [0 ..< 19] \<and>
   map start_time (get_available_slots (Some []) d 60 stylist)
     = [''09:00'', ''09:30'', ''10:00'', ''10:30'', ''11:00'', ''11:30'', ''12:00'', ''12:30'',
        ''13:00'', ''13:30'', ''14:00'', ''14:30'', ''15:00'', ''15:30'', ''16:00'', ''16:30'',
        ''17:00'', ''17:30'', ''18:00'']"
proof (intro conjI)
  note run = slots_empty_calendar [of d stylist] empty_day [of d]
  show "hd (get_available_slots (Some []) d 60 stylist)
     = \<lparr>start_time = ''09:00'', end_time = ''10:00'', date = d\<rparr>"
    by (simp only: run) simp
  show "last (get_available_slots (Some []) d 60 stylist)
     = \<lparr>start_time = ''18:00'', end_time = ''19:00'', date = d\<rparr>"
    by (simp only: run) simp
  show "length (get_available_slots (Some []) d 60 stylist) = 19"
    by (simp only: run) simp
  show "map start_time (get_available_slots (Some []) d 60 stylist)
     = [''09:00'', ''09:30'', ''10:00'', ''10:30'', ''11:00'', ''11:30'', ''12:00'', ''12:30'',
        ''13:00'', ''13:30'', ''14:00'', ''14:30'', ''15:00'', ''15:30'', ''16:00'', ''16:30'',
        ''17:00'', ''17:30'', ''18:00'']"
    by (simp only: run) simp
  show "map start_time (get_available_slots (Some []) d 60 stylist)
     = map (\<lambda>i. hhmm (day_start + stride * int i)) [0 ..< 19]"
    by (simp only: run) (simp add: day_start_def stride_def hhmm_def two_digits_def upt_rec)
qed

text \<open>
  C4. With the single appointment from 10:00 to 11:00 and a duration of 60 minutes, no
  returned slot starts at 10:00, and slots starting at 09:00 and at 11:00 are returned. In
  every sweep, with any list of busy periods, a candidate whose slot overlaps some busy
  period of the list is not emitted: the sweep continues at the end of a busy period of the
  list that the slot overlaps. That period is the first one in list order that the slot
  overlaps: when no period before it in the list overlaps the slot, the sweep continues at
  its end.
\<close>

theorem C4_slot_sweep:
  "''10:00'' \<notin> set (map start_time (get_available_slots (Some [existing_appointment]) d 60 None)) \<and>
   ''09:00'' \<in> set (map start_time (get_available_slots (Some [existing_appointment]) d 60 None)) \<and>
   ''11:00'' \<in> set (map start_time (get_available_slots (Some [existing_appointment]) d 60 None)) \<and>
   (current + duration \<le> dend \<and> (bs, be) \<in> set busy \<and> current < be \<and>
    bs < current + duration \<longrightarrow>
      (\<exists>bs' be'. (bs', be') \<in> set busy \<and> current < be' \<and> bs' < current + duration \<and>
         first_conflict current (current + duration) busy = Some (bs', be') \<and>
         sweep d busy duration dend current = sweep d busy duration dend be')) \<and>
   (current + duration \<le> dend \<and> busy = pre @ (busy_start, busy_end) # post \<and>
    list_all (\<lambda>(s, e). \<not> (current < e \<and> s < current + duration)) pre \<and>
    current < busy_end \<and> busy_start < current + duration \<longrightarrow>
      first_conflict current (current + duration) busy = Some (busy_start, busy_end) \<and>
      sweep d busy duration dend current = sweep d busy duration dend busy_end)"
proof (intro conjI impI)
  note run = slots_existing_appointment [of d] busy_day [of d]
  show "''10:00'' \<notin> set (map start_time (get_available_slots (Some [existing_appointment]) d 60 None))"
    by (simp only: run) simp
  show "''09:00'' \<in> set (map start_time (get_available_slots (Some [existing_appointment]) d 60 None))"
    by (simp only: run) simp
  show "''11:00'' \<in> set (map start_time (get_available_slots (Some [existing_appointment]) d 60 None))"
    by (simp only: run) simp
next
  assume a: "current + duration \<le> dend \<and> (bs, be) \<in> set busy \<and> current < be \<and>
    bs < current + duration"
  then obtain bs' be' where fc:
    "first_conflict current (current + duration) busy = Some (bs', be')"
    using first_conflict_complete [of bs be busy current "current + duration"] by blast
  from first_conflict_overlap [OF fc] sweep_skip [OF _ fc, of dend d] a fc
  show "\<exists>bs' be'. (bs', be') \<in> set busy \<and> current < be' \<and> bs' < current + duration \<and>
         first_conflict current (current + duration) busy = Some (bs', be') \<and>
         sweep d busy duration dend current = sweep d busy duration dend be'"
    by blast
next
  assume a: "current + duration \<le> dend \<and> busy = pre @ (busy_start, busy_end) # post \<and>
    list_all (\<lambda>(s, e). \<not> (current < e \<and> s < current + duration)) pre \<and>
    current < busy_end \<and> busy_start < current + duration"
  then show fc: "first_conflict current (current + duration) busy = Some (busy_start, busy_end)"
    by (simp add: first_conflict_first)
  from a sweep_skip [OF _ fc, of dend d]
  show "sweep d busy duration dend current = sweep d busy duration dend busy_end"
    by simp
qed

text \<open>
  The skip on the 09:45 candidate of a day with three busy periods: its slot overlaps the
  second and the third period, and the sweep continues at 11:00, the end of the second.
\<close>

theorem C4_slot_sweep_witness:
  "35100 + 3600 \<le> (68400 :: int) \<and> (37800, 43200) \<in> set busy3 \<and>
   busy3 = [(33000, 35100)] @ (36000, 39600) # [(37800, 43200)] \<and>
   first_conflict 35100 (35100 + 3600) busy3 = Some (36000, 39600) \<and>
   sweep ''2026-03-15'' busy3 3600 68400 35100 = sweep ''2026-03-15'' busy3 3600 68400 39600"
  using C4_slot_sweep [where d = "''2026-03-15''" and current = 35100 and duration = 3600
      and dend = 68400 and busy = busy3 and bs = 37800 and be = 43200
      and pre = "[(33000, 35100)]" and busy_start = 36000 and busy_end = 39600
      and post = "[(37800, 43200)]"]
  by (simp add: busy3_def)

section \<open>The turn pipeline\<close>

lemma invoke_stt_eq:
  "speech_to_text svc (outside st) a = (r, w) \<Longrightarrow>
     invoke_stt svc a st = (r, st\<lparr>outside := w, calls := calls st @ [SpeechToText a]\<rparr>)"
  by (simp add: invoke_stt_def)

lemma invoke_tts_eq:
  "text_to_speech_base64 svc (outside st) t = (r, w) \<Longrightarrow>
     invoke_tts svc t st = (r, st\<lparr>outside := w, calls := calls st @ [TextToSpeech t]\<rparr>)"
  by (simp add: invoke_tts_def)

lemma invoke_chat_eq:
  "llm_chat svc (outside st) h um sid = (r, w) \<Longrightarrow>
     invoke_chat svc h um sid st = (r, st\<lparr>outside := w, calls := calls st @ [LLMChat h um sid]\<rparr>)"
  by (simp add: invoke_chat_def)


lemma audio_stt_failure:
  assumes "active_sessions st sid = Some session"
    and "speech_to_text svc (outside st) audio = (Inl e, w1)"
    and "text_to_speech_base64 svc w1 stt_error_response = (r, w2)"
  shows "process_customer_audio svc sid audio st =
     ((case r of Inl e' \<Rightarrow> Inl e' | Inr error_audio \<Rightarrow> Inr (stt_error_response, error_audio)),
      st\<lparr>outside := w2,
         calls := calls st @ [SpeechToText audio, TextToSpeech stt_error_response]\<rparr>)"
  using assms
  by (cases r) (simp_all add: process_customer_audio_def invoke_stt_eq [OF assms(2)] invoke_tts_def)



lemma dispatch_plays:
  assumes "process_audio tp (conn_call_sid c) u ost = (Inr (agent_text, audio), ost')"
    and "stream_sid c = Some ssid" "ssid \<noteq> []" "audio \<noteq> []" "send_audio tp ssid audio"
  shows "dispatch_utterance tp u c ost = (c, ost')"
  using assms by (simp add: dispatch_utterance_def)

text \<open>
  C9. For a call with a session, when the transcription raises and the synthesis
  of the fallback phrase returns audio, \<open>process_customer_audio\<close> returns the fallback phrase
  with that audio; the session store, and so the conversation history, is unchanged; the only
  collaborator calls of the turn are the transcription and the synthesis of the fallback
  phrase (no chat call, no synthesis of an agent response). When that audio is not empty, the
  stream id is known and the audio is sent, the connection handler keeps the suppression set
  (the turn is playing).
\<close>

theorem C9_transcription_failure:
  "active_sessions st sid = Some session \<and>
   speech_to_text svc (outside st) audio = (Inl e, w1) \<and>
   text_to_speech_base64 svc w1 stt_error_response = (Inr error_audio, w2) \<longrightarrow>
     process_customer_audio svc sid audio st =
       (Inr (stt_error_response, error_audio),
        st\<lparr>outside := w2,
           calls := calls st @ [SpeechToText audio, TextToSpeech stt_error_response]\<rparr>) \<and>
     active_sessions (snd (process_customer_audio svc sid audio st)) = active_sessions st \<and>
     (process_audio tp = voice_pipeline svc \<and> conn_call_sid c = Some sid \<and>
      stream_sid c = Some ssid \<and> ssid \<noteq> [] \<and> error_audio \<noteq> [] \<and>
      send_audio tp ssid error_audio \<longrightarrow>
        fst (dispatch_utterance tp audio c st) = c)"
proof (intro impI)
  assume a: "active_sessions st sid = Some session \<and>
   speech_to_text svc (outside st) audio = (Inl e, w1) \<and>
   text_to_speech_base64 svc w1 stt_error_response = (Inr error_audio, w2)"
  then have run: "process_customer_audio svc sid audio st =
       (Inr (stt_error_response, error_audio),
        st\<lparr>outside := w2,
           calls := calls st @ [SpeechToText audio, TextToSpeech stt_error_response]\<rparr>)"
    using audio_stt_failure [of st sid session svc audio e w1 "Inr error_audio" w2] by simp
  have play: "fst (dispatch_utterance tp audio c st) = c"
    if "process_audio tp = voice_pipeline svc \<and> conn_call_sid c = Some sid \<and>
      stream_sid c = Some ssid \<and> ssid \<noteq> [] \<and> error_audio \<noteq> [] \<and>
      send_audio tp ssid error_audio"
  proof -
    from that run have "process_audio tp (conn_call_sid c) audio st =
       (Inr (stt_error_response, error_audio),
        st\<lparr>outside := w2,
           calls := calls st @ [SpeechToText audio, TextToSpeech stt_error_response]\<rparr>)"
      by (simp add: voice_pipeline_def)
    from dispatch_plays [OF this] that show ?thesis by simp
  qed
  from run play show "process_customer_audio svc sid audio st =
       (Inr (stt_error_response, error_audio),
        st\<lparr>outside := w2,
           calls := calls st @ [SpeechToText audio, TextToSpeech stt_error_response]\<rparr>) \<and>
     active_sessions (snd (process_customer_audio svc sid audio st)) = active_sessions st \<and>
     (process_audio tp = voice_pipeline svc \<and> conn_call_sid c = Some sid \<and>
      stream_sid c = Some ssid \<and> ssid \<noteq> [] \<and> error_audio \<noteq> [] \<and>
      send_audio tp ssid error_audio \<longrightarrow>
        fst (dispatch_utterance tp audio c st) = c)"
    by simp
qed

text \<open>The property on services whose transcription is down.\<close>

theorem C9_transcription_failure_witness:
  "process_customer_audio stt_down ''CA1'' [1, 2, 3] store0 =
     (Inr (stt_error_response, ''QUJD''),
      store0\<lparr>calls := [SpeechToText [1, 2, 3], TextToSpeech stt_error_response]\<rparr>) \<and>
   fst (dispatch_utterance live_transport [1, 2, 3] (idle0\<lparr>is_processing := True\<rparr>) store0)
     = idle0\<lparr>is_processing := True\<rparr>"
  using C9_transcription_failure [of store0 "''CA1''" greeted_session stt_down "[1, 2, 3]"
      "''STT timeout''" 0 "''QUJD''" 0 live_transport "idle0\<lparr>is_processing := True\<rparr>" "''MZ1''"]
  by (simp add: store0_def stt_down_def failing_stt_def canned_tts_def live_transport_def
        idle0_def send_succeeds_def)

text \<open>
  When the transcription and the synthesis both raise, \<open>process_customer_audio\<close> does not
  return the fallback phrase: the synthesis error leaves it.
\<close>

theorem C9_synthesis_counterexample:
  "active_sessions store0 ''CA1'' = Some greeted_session \<and>
   fst (speech_to_text voice_down (outside store0) [1, 2, 3]) = Inl ''STT timeout'' \<and>
   fst (process_customer_audio voice_down ''CA1'' [1, 2, 3] store0) = Inl ''TTS timeout''"
  by (simp add: process_customer_audio_def invoke_stt_def invoke_tts_def store0_def
        voice_down_def stt_down_def failing_stt_def failing_tts_def)




end
